theory Spec2Isabelle
  imports Complex_Main
begin

section \<open>Tensors, floats and errors\<close>

text \<open>
  The batch graph-rewiring code of \<^verbatim>\<open>get_data_sample.py\<close> works on PyTorch tensors.
  A one-dimensional tensor is a list; an \<open>(n, 3)\<close> tensor is a list of triples; the
  \<open>(2, E)\<close> tensor \<open>edge_index\<close> is the list of its \<open>E\<close> columns \<open>(source, target)\<close>.
  Integer tensors hold \<open>int\<close> (the lookup table holds the sentinel \<open>-1\<close>, and an index tensor
  may hold negative indices, which PyTorch counts from the end). A float is a real number or
  \<open>NaN\<close>, and the arithmetic on finite floats is that of the reals: the rounding of 32-bit
  floats and their overflow to infinity are not modelled, so nothing here speaks of the
  numerical accuracy of a mean or a distance. The mean of an empty tensor is \<open>NaN\<close> as in
  PyTorch.

  The per-node arrays \<open>tags\<close>, \<open>batch\<close>, \<open>atomic_numbers\<close>, \<open>pos\<close>, \<open>pos_relaxed\<close>,
  \<open>force\<close>, \<open>fixed\<close> of a batch have one length, and \<open>cell_offsets\<close> has one row per
  edge (the loader's input contract). Selections whose indices come from \<open>where\<close> over a mask
  of the indexed tensor's own length cannot leave its range and are plain gathers; every other
  indexing is checked and raises as PyTorch does.
\<close>

text \<open>The exceptions of Python and PyTorch that the blocks can raise, and the three error
  kinds that the specification names and no block raises.\<close>

datatype error = IndexError | ValueError | RuntimeError
  | EmptyAggregateError | IndexResolutionError | ShapeMismatchError

definition bindE :: "error + 'a \<Rightarrow> ('a \<Rightarrow> error + 'b) \<Rightarrow> error + 'b" where
  "bindE m f = (case m of Inl e \<Rightarrow> Inl e | Inr x \<Rightarrow> f x)"

datatype tfloat = Fl real | NaN

type_synonym vec3 = "tfloat \<times> tfloat \<times> tfloat"

fun fl_add :: "tfloat \<Rightarrow> tfloat \<Rightarrow> tfloat" where
  "fl_add (Fl x) (Fl y) = Fl (x + y)"
| "fl_add _ _ = NaN"

fun fl_sub :: "tfloat \<Rightarrow> tfloat \<Rightarrow> tfloat" where
  "fl_sub (Fl x) (Fl y) = Fl (x - y)"
| "fl_sub _ _ = NaN"

fun fl_sq :: "tfloat \<Rightarrow> tfloat" where
  "fl_sq (Fl x) = Fl (x * x)"
| "fl_sq NaN = NaN"

fun fl_sqrt :: "tfloat \<Rightarrow> tfloat" where
  "fl_sqrt (Fl x) = (if x < 0 then NaN else Fl (sqrt x))"
| "fl_sqrt NaN = NaN"

text \<open>\<^verbatim>\<open>t.mean()\<close> of a one-dimensional float tensor: \<open>NaN\<close> when the tensor is empty
  (\<open>0 / 0\<close>), as PyTorch gives it; otherwise the sum over the count in real arithmetic, where
  PyTorch rounds.\<close>

definition fl_mean :: "tfloat list \<Rightarrow> tfloat" where
  "fl_mean xs = (if xs = [] then NaN
     else case fold fl_add xs (Fl 0) of NaN \<Rightarrow> NaN | Fl s \<Rightarrow> Fl (s / real (length xs)))"

text \<open>\<^verbatim>\<open>t.mean(0)\<close> of an \<open>(n, 3)\<close> tensor: the mean of each column.\<close>

definition mean0 :: "vec3 list \<Rightarrow> vec3" where
  "mean0 rows = (fl_mean (map fst rows), fl_mean (map (fst \<circ> snd) rows),
     fl_mean (map (snd \<circ> snd) rows))"

text \<open>\<^verbatim>\<open>where(m)[0]\<close>: the indices at which the mask holds, ascending.\<close>

definition where_idx :: "bool list \<Rightarrow> int list" where
  "where_idx m = map int (filter (\<lambda>j. m ! j) [0..<length m])"

text \<open>\<^verbatim>\<open>t[idx]\<close> with indices produced by \<open>where\<close> over a mask of \<open>t\<close>'s length.\<close>

definition gather :: "'a list \<Rightarrow> int list \<Rightarrow> 'a list" where
  "gather xs idx = map (\<lambda>j. xs ! nat j) idx"

text \<open>\<^verbatim>\<open>t[mask]\<close> with a mask computed from \<open>t\<close>'s own rows.\<close>

definition msel :: "'a list \<Rightarrow> bool list \<Rightarrow> 'a list" where
  "msel xs m = map snd (filter fst (zip m xs))"

text \<open>\<^verbatim>\<open>t[mask]\<close> in general: PyTorch raises \<open>IndexError\<close> when the mask's length is not the
  tensor's.\<close>

definition msel_chk :: "'a list \<Rightarrow> bool list \<Rightarrow> error + 'a list" where
  "msel_chk xs m = (if length m \<noteq> length xs then Inl IndexError else Inr (msel xs m))"

text \<open>\<^verbatim>\<open>t[k]\<close> for an integer \<open>k\<close>: a negative index counts from the end, an index outside
  \<open>[-n, n)\<close> raises \<open>IndexError\<close>.\<close>

definition tidx :: "'a list \<Rightarrow> int \<Rightarrow> error + 'a" where
  "tidx xs k = (let n = int (length xs) in
     if - n \<le> k \<and> k < n then Inr (xs ! nat (if k < 0 then k + n else k))
     else Inl IndexError)"

text \<open>\<^verbatim>\<open>t[idx]\<close> for an index tensor \<open>idx\<close>.\<close>

fun tsel :: "'a list \<Rightarrow> int list \<Rightarrow> error + 'a list" where
  "tsel xs [] = Inr []"
| "tsel xs (k # ks) = bindE (tidx xs k) (\<lambda>v. bindE (tsel xs ks) (\<lambda>vs. Inr (v # vs)))"

text \<open>\<^verbatim>\<open>t[idx] = v\<close> for an index tensor \<open>idx\<close> and a scalar \<open>v\<close>.\<close>

fun tput :: "'a list \<Rightarrow> int list \<Rightarrow> 'a \<Rightarrow> error + 'a list" where
  "tput xs [] v = Inr xs"
| "tput xs (k # ks) v = (let n = int (length xs) in
     if - n \<le> k \<and> k < n then tput (xs[nat (if k < 0 then k + n else k) := v]) ks v
     else Inl IndexError)"

text \<open>\<^verbatim>\<open>t[mask] = vals\<close>: the positions where the mask holds take the values in order.\<close>

fun mask_put :: "'a list \<Rightarrow> bool list \<Rightarrow> 'a list \<Rightarrow> 'a list" where
  "mask_put (x # xs) (m # ms) vs =
     (if m then (case vs of [] \<Rightarrow> x # mask_put xs ms [] | v # vs' \<Rightarrow> v # mask_put xs ms vs')
      else x # mask_put xs ms vs)"
| "mask_put xs _ _ = xs"

text \<open>PyTorch raises \<open>RuntimeError\<close> when the number of values is not the number of positions
  selected (a single value would be broadcast; the lookup table never gets there, see
  \<open>single_super_node\<close>).\<close>

definition mask_put_chk :: "'a list \<Rightarrow> bool list \<Rightarrow> 'a list \<Rightarrow> error + 'a list" where
  "mask_put_chk xs m vs =
     (if length m \<noteq> length xs then Inl IndexError
      else if length (filter id m) \<noteq> length vs then Inl RuntimeError
      else Inr (mask_put xs m vs))"

text \<open>\<^verbatim>\<open>torch.arange(a, b)\<close>; every call of the block has \<open>a \<le> b\<close>.\<close>

definition arange :: "int \<Rightarrow> int \<Rightarrow> int list" where
  "arange a b = [a..b - 1]"

text \<open>The counts returned by \<^verbatim>\<open>torch.unique(t, return_counts=True)\<close>: one per distinct
  value of \<open>t\<close>, in ascending order of the values.\<close>

definition unique_vals :: "int list \<Rightarrow> int list" where
  "unique_vals xs = sort (remdups xs)"

definition unique_counts :: "int list \<Rightarrow> int list" where
  "unique_counts xs = map (\<lambda>v. int (count_list xs v)) (unique_vals xs)"

section \<open>The batch\<close>

record batch_t =
  ptr :: "int list"
  batch :: "int list"
  natoms :: "int list"
  tags :: "int list"
  atomic_numbers :: "int list"
  pos :: "vec3 list"
  pos_relaxed :: "vec3 list"
  force :: "vec3 list"
  fixed :: "tfloat list"
  edge_index :: "(int \<times> int) list"
  cell_offsets :: "(int \<times> int \<times> int) list"
  distances :: "tfloat list"
  neighbors :: "int list"

record data_t = batch_t +
  sn_nodes_aggregates :: "int list"
  sn_edges_aggregates :: "int list"

section \<open>The single-super-node reduction (\<^verbatim>\<open>get_data_sample.py\<close>, lines 121--336)\<close>

text \<open>Line 127, \<^verbatim>\<open>batch_size = max(b.batch).item() + 1\<close>; Python's \<open>max\<close> of an empty
  sequence raises \<open>ValueError\<close>.\<close>

definition batch_size :: "batch_t \<Rightarrow> error + nat" where
  "batch_size b = (if batch b = [] then Inl ValueError
     else Inr (nat (fold max (batch b) (hd (batch b)) + 1)))"

text \<open>Lines 131--140: the sub-surface nodes (tag \<open>0\<close>) and the other nodes of graph \<open>i\<close>.\<close>

definition sub_nodes :: "batch_t \<Rightarrow> nat \<Rightarrow> int list" where
  "sub_nodes b i = where_idx (map2 (\<lambda>t g. t = 0 \<and> g = int i) (tags b) (batch b))"

definition non_sub_nodes :: "batch_t \<Rightarrow> nat \<Rightarrow> int list" where
  "non_sub_nodes b i = where_idx (map2 (\<lambda>t g. t \<noteq> 0 \<and> g = int i) (tags b) (batch b))"

text \<open>Lines 144--151. Super-node index per graph: the super-node is the last node of its
  graph; the new pointer and the new node counts.\<close>

definition new_sn_ids :: "batch_t \<Rightarrow> nat \<Rightarrow> int list" where
  "new_sn_ids b n =
     map (\<lambda>i. int (sum_list (map (\<lambda>k. length (non_sub_nodes b k)) [0..<i + 1])) + int i) [0..<n]"

definition new_ptr :: "batch_t \<Rightarrow> nat \<Rightarrow> int list" where
  "new_ptr b n = 0 # map (\<lambda>nsi. nsi + 1) (new_sn_ids b n)"

definition new_natoms :: "int list \<Rightarrow> int list" where
  "new_natoms p = map2 (\<lambda>x y. x - y) (tl p) (butlast p)"

text \<open>Lines 154--164: the number of nodes aggregated into each super-node, and the means of
  their positions, relaxed positions and forces.\<close>

definition new_sn_nodes_aggregates :: "batch_t \<Rightarrow> nat \<Rightarrow> int list" where
  "new_sn_nodes_aggregates b n = map (\<lambda>i. int (length (sub_nodes b i))) [0..<n]"

definition sn_pos :: "batch_t \<Rightarrow> nat \<Rightarrow> vec3" where
  "sn_pos b i = mean0 (gather (pos b) (sub_nodes b i))"

definition sn_pos_relaxed :: "batch_t \<Rightarrow> nat \<Rightarrow> vec3" where
  "sn_pos_relaxed b i = mean0 (gather (pos_relaxed b) (sub_nodes b i))"

definition sn_force :: "batch_t \<Rightarrow> nat \<Rightarrow> vec3" where
  "sn_force b i = mean0 (gather (force b) (sub_nodes b i))"

text \<open>Lines 169--220. The per-atom tensors: for every graph its non-sub-surface atoms in
  their order, then the super-node's entry.\<close>

definition per_atom :: "batch_t \<Rightarrow> nat \<Rightarrow> 'a list \<Rightarrow> (nat \<Rightarrow> 'a) \<Rightarrow> 'a list" where
  "per_atom b n xs sn = concat (map (\<lambda>i. gather xs (non_sub_nodes b i) @ [sn i]) [0..<n])"

text \<open>Lines 225--263. Edges per graph: the mask of the edges whose source lies in the
  graph's old node range, the cell offsets of these edges, and for each of them whether its
  source and its target are among the graph's non-sub-surface nodes.\<close>

definition ei_batch_ids :: "batch_t \<Rightarrow> nat \<Rightarrow> bool list" where
  "ei_batch_ids b i = map (\<lambda>(s, t). ptr b ! i \<le> s \<and> s < ptr b ! (i + 1)) (edge_index b)"

definition co_batch :: "batch_t \<Rightarrow> nat \<Rightarrow> (int \<times> int \<times> int) list" where
  "co_batch b i = msel (cell_offsets b) (ei_batch_ids b i)"

definition src_is_not_sub :: "batch_t \<Rightarrow> nat \<Rightarrow> bool list" where
  "src_is_not_sub b i =
     map (\<lambda>s. s \<in> set (non_sub_nodes b i)) (msel (map fst (edge_index b)) (ei_batch_ids b i))"

definition target_is_not_sub :: "batch_t \<Rightarrow> nat \<Rightarrow> bool list" where
  "target_is_not_sub b i =
     map (\<lambda>t. t \<in> set (non_sub_nodes b i)) (msel (map snd (edge_index b)) (ei_batch_ids b i))"

definition both_are_sub :: "batch_t \<Rightarrow> nat \<Rightarrow> bool list" where
  "both_are_sub b i = map2 (\<lambda>s t. \<not> s \<and> \<not> t) (src_is_not_sub b i) (target_is_not_sub b i)"

definition not_both_are_sub :: "batch_t \<Rightarrow> nat \<Rightarrow> bool list" where
  "not_both_are_sub b i = map Not (both_are_sub b i)"

text \<open>Lines 272--284: the number of edges dropped per graph, and the new cell offsets, a zero
  row after each graph's kept rows.\<close>

definition new_sn_edges_aggregates :: "batch_t \<Rightarrow> nat \<Rightarrow> int list" where
  "new_sn_edges_aggregates b n =
     map (\<lambda>i. int (length (not_both_are_sub b i)) - int (length (filter id (not_both_are_sub b i))))
       [0..<n]"

definition new_cell_offsets :: "batch_t \<Rightarrow> nat \<Rightarrow> (int \<times> int \<times> int) list" where
  "new_cell_offsets b n =
     concat (map (\<lambda>i. msel (co_batch b i) (not_both_are_sub b i) @ [(0, 0, 0)]) [0..<n])"

text \<open>Lines 298--310. The lookup table from old to new node indices: \<open>-1\<close> everywhere, then
  the non-sub-surface nodes get the new indices of their graph's range without its last
  index (the super-node's).\<close>

definition assoc_values :: "int list \<Rightarrow> nat \<Rightarrow> int list" where
  "assoc_values p n = concat (map (\<lambda>e. arange (p ! e) (p ! (e + 1) - 1)) [0..<n])"

definition assoc_table :: "batch_t \<Rightarrow> nat \<Rightarrow> error + int list" where
  "assoc_table b n =
     (let num_nodes = last (ptr b) + int n in
      if num_nodes < 0 then Inl RuntimeError
      else bindE (tput (replicate (nat num_nodes) False)
                   (concat (map (non_sub_nodes b) [0..<n])) True) (\<lambda>mask.
           mask_put_chk (replicate (nat num_nodes) (- 1)) mask (assoc_values (new_ptr b n) n)))"

text \<open>Line 318, \<^verbatim>\<open>ei_sn = assoc[ei_not_both]\<close>, and lines 320--322, the distances between the
  new positions of the endpoints.\<close>

fun reindex :: "int list \<Rightarrow> (int \<times> int) list \<Rightarrow> error + (int \<times> int) list" where
  "reindex assoc [] = Inr []"
| "reindex assoc ((s, t) # es) =
     bindE (tidx assoc s) (\<lambda>s'. bindE (tidx assoc t) (\<lambda>t'.
       bindE (reindex assoc es) (\<lambda>es'. Inr ((s', t') # es'))))"

definition dist3 :: "vec3 \<Rightarrow> vec3 \<Rightarrow> tfloat" where
  "dist3 p q = (case (p, q) of ((x1, y1, z1), (x2, y2, z2)) \<Rightarrow>
     fl_sqrt (fl_add (fl_add (fl_sq (fl_sub x1 x2)) (fl_sq (fl_sub y1 y2))) (fl_sq (fl_sub z1 z2))))"

definition new_distances :: "vec3 list \<Rightarrow> (int \<times> int) list \<Rightarrow> error + tfloat list" where
  "new_distances ps ei =
     bindE (tsel ps (map fst ei)) (\<lambda>a. bindE (tsel ps (map snd ei)) (\<lambda>c.
       Inr (map2 dist3 a c)))"

text \<open>Lines 332--336. \<^verbatim>\<open>data.batch\<close> rebuilt from the new pointer: zeros, then the range of
  graph \<open>i\<close> set to \<open>i\<close>, for each graph in turn.\<close>

fun fill_batch :: "int list \<Rightarrow> nat list \<Rightarrow> int list \<Rightarrow> error + int list" where
  "fill_batch p [] bt = Inr bt"
| "fill_batch p (i # is) bt =
     bindE (tput bt (arange (p ! i) (p ! (i + 1))) (int i)) (\<lambda>bt'. fill_batch p is bt')"

definition new_batch :: "int list \<Rightarrow> error + int list" where
  "new_batch p = fill_batch p [0..<length p - 1] (replicate (nat (last p)) 0)"

text \<open>
  The whole block. \<open>data\<close> starts as a deep copy of \<open>b\<close>, so \<open>data.batch\<close> is still \<open>b\<close>'s
  when \<open>data.neighbors\<close> is computed from it (lines 328--330); it is rebuilt afterwards. An empty
  \<open>range(batch_size)\<close> makes \<^verbatim>\<open>cat([])\<close> raise \<open>RuntimeError\<close>; \<^verbatim>\<open>b.ptr[i + 1]\<close> raises
  \<open>IndexError\<close> when \<open>ptr\<close> is too short.
\<close>

definition single_super_node :: "batch_t \<Rightarrow> error + data_t" where
  "single_super_node b =
     bindE (batch_size b) (\<lambda>n.
     if n = 0 then Inl RuntimeError
     else if length (ptr b) \<le> n then Inl IndexError
     else
       let data_ptr = new_ptr b n;
           data_pos = per_atom b n (pos b) (sn_pos b)
       in
       bindE (msel_chk (edge_index b) (concat (map (not_both_are_sub b) [0..<n]))) (\<lambda>ei_not_both.
       bindE (assoc_table b n) (\<lambda>assoc.
       bindE (reindex assoc ei_not_both) (\<lambda>ei_sn.
       bindE (new_distances data_pos ei_sn) (\<lambda>distance.
       bindE (tsel (batch b) (map fst ei_sn)) (\<lambda>src_batch.
       bindE (new_batch data_ptr) (\<lambda>data_batch.
       Inr \<lparr> ptr = data_ptr,
             batch = data_batch,
             natoms = new_natoms data_ptr,
             tags = per_atom b n (tags b) (\<lambda>i. 0),
             atomic_numbers = per_atom b n (atomic_numbers b) (\<lambda>i. 84),
             pos = data_pos,
             pos_relaxed = per_atom b n (pos_relaxed b) (sn_pos_relaxed b),
             force = per_atom b n (force b) (sn_force b),
             fixed = per_atom b n (fixed b) (\<lambda>i. Fl 1),
             edge_index = ei_sn,
             cell_offsets = new_cell_offsets b n,
             distances = distance,
             neighbors = unique_counts src_batch,
             sn_nodes_aggregates = new_sn_nodes_aggregates b n,
             sn_edges_aggregates = new_sn_edges_aggregates b n \<rparr>)))))))"

section \<open>The multi-super-node aggregates (\<^verbatim>\<open>get_data_sample.py\<close>, lines 353--399)\<close>











section \<open>Concrete batches\<close>

text \<open>The scenario batch: graph 0 has five atoms with tags \<open>[0, 0, 1, 1, 2]\<close> and the edge
  \<open>(0, 2)\<close>; graph 1 has three atoms with tags \<open>[0, 1, 2]\<close> and the edge \<open>(0, 1)\<close> of its own
  numbering, \<open>(5, 6)\<close> in the batch.\<close>

definition scen :: batch_t where
  "scen = \<lparr> ptr = [0, 5, 8], batch = [0, 0, 0, 0, 0, 1, 1, 1], natoms = [5, 3],
     tags = [0, 0, 1, 1, 2, 0, 1, 2], atomic_numbers = [29, 29, 29, 29, 1, 78, 78, 8],
     pos = [(Fl 0, Fl 0, Fl 0), (Fl 2, Fl 4, Fl 6), (Fl 1, Fl 1, Fl 1), (Fl 2, Fl 2, Fl 2),
            (Fl 3, Fl 3, Fl 3), (Fl 5, Fl 5, Fl 5), (Fl 6, Fl 6, Fl 6), (Fl 7, Fl 7, Fl 7)],
     pos_relaxed = [(Fl 0, Fl 0, Fl 1), (Fl 2, Fl 4, Fl 7), (Fl 1, Fl 1, Fl 2), (Fl 2, Fl 2, Fl 3),
            (Fl 3, Fl 3, Fl 4), (Fl 5, Fl 5, Fl 6), (Fl 6, Fl 6, Fl 7), (Fl 7, Fl 7, Fl 8)],
     force = [(Fl 1, Fl 0, Fl 0), (Fl 0, Fl 1, Fl 0), (Fl 0, Fl 0, Fl 0), (Fl 0, Fl 0, Fl 0),
            (Fl 0, Fl 0, Fl 0), (Fl 0, Fl 0, Fl 3), (Fl 0, Fl 0, Fl 0), (Fl 0, Fl 0, Fl 0)],
     fixed = [Fl 1, Fl 1, Fl 0, Fl 0, Fl 0, Fl 1, Fl 0, Fl 0],
     edge_index = [(0, 2), (5, 6)], cell_offsets = [(0, 0, 0), (1, 0, 0)],
     distances = [Fl 1, Fl 1], neighbors = [1, 1] \<rparr>"

definition scen_out :: data_t where
  "scen_out = \<lparr> ptr = [0, 4, 7], batch = [0, 0, 0, 0, 1, 1, 1], natoms = [4, 3],
     tags = [1, 1, 2, 0, 1, 2, 0], atomic_numbers = [29, 29, 1, 84, 78, 8, 84],
     pos = [(Fl 1, Fl 1, Fl 1), (Fl 2, Fl 2, Fl 2), (Fl 3, Fl 3, Fl 3), (Fl 1, Fl 2, Fl 3),
            (Fl 6, Fl 6, Fl 6), (Fl 7, Fl 7, Fl 7), (Fl 5, Fl 5, Fl 5)],
     pos_relaxed = [(Fl 1, Fl 1, Fl 2), (Fl 2, Fl 2, Fl 3), (Fl 3, Fl 3, Fl 4), (Fl 1, Fl 2, Fl 4),
            (Fl 6, Fl 6, Fl 7), (Fl 7, Fl 7, Fl 8), (Fl 5, Fl 5, Fl 6)],
     force = [(Fl 0, Fl 0, Fl 0), (Fl 0, Fl 0, Fl 0), (Fl 0, Fl 0, Fl 0), (Fl (1 / 2), Fl (1 / 2), Fl 0),
            (Fl 0, Fl 0, Fl 0), (Fl 0, Fl 0, Fl 0), (Fl 0, Fl 0, Fl 3)],
     fixed = [Fl 0, Fl 0, Fl 0, Fl 1, Fl 0, Fl 0, Fl 1],
     edge_index = [(- 1, 0), (- 1, 4)],
     cell_offsets = [(0, 0, 0), (0, 0, 0), (1, 0, 0), (0, 0, 0)],
     distances = [Fl (sqrt 48), Fl (sqrt 3)], neighbors = [2],
     sn_nodes_aggregates = [2, 1], sn_edges_aggregates = [0, 0] \<rparr>"

text \<open>Two graphs with sub-surface atoms and no edge that touches one: the new indices of
  the second graph's atoms differ from their old ones.\<close>

definition stale :: batch_t where
  "stale = \<lparr> ptr = [0, 4, 7], batch = [0, 0, 0, 0, 1, 1, 1], natoms = [4, 3],
     tags = [0, 0, 1, 1, 0, 1, 1], atomic_numbers = [29, 29, 29, 1, 78, 78, 8],
     pos = [(Fl 0, Fl 0, Fl 0), (Fl 1, Fl 0, Fl 0), (Fl 0, Fl 0, Fl 1), (Fl 0, Fl 0, Fl 2),
            (Fl 0, Fl 0, Fl 0), (Fl 0, Fl 0, Fl 1), (Fl 0, Fl 0, Fl 2)],
     pos_relaxed = [(Fl 0, Fl 0, Fl 0), (Fl 1, Fl 0, Fl 0), (Fl 0, Fl 0, Fl 1), (Fl 0, Fl 0, Fl 2),
            (Fl 0, Fl 0, Fl 0), (Fl 0, Fl 0, Fl 1), (Fl 0, Fl 0, Fl 2)],
     force = [(Fl 0, Fl 0, Fl 0), (Fl 0, Fl 0, Fl 0), (Fl 0, Fl 0, Fl 0), (Fl 0, Fl 0, Fl 0),
            (Fl 0, Fl 0, Fl 0), (Fl 0, Fl 0, Fl 0), (Fl 0, Fl 0, Fl 0)],
     fixed = [Fl 1, Fl 1, Fl 0, Fl 0, Fl 1, Fl 0, Fl 0],
     edge_index = [(2, 3), (3, 2), (5, 6), (6, 5)],
     cell_offsets = [(0, 0, 0), (0, 0, 0), (0, 0, 0), (0, 0, 0)],
     distances = [Fl 1, Fl 1, Fl 1, Fl 1], neighbors = [2, 2] \<rparr>"

definition stale_out :: data_t where
  "stale_out = \<lparr> ptr = [0, 3, 6], batch = [0, 0, 0, 1, 1, 1], natoms = [3, 3],
     tags = [1, 1, 0, 1, 1, 0], atomic_numbers = [29, 1, 84, 78, 8, 84],
     pos = [(Fl 0, Fl 0, Fl 1), (Fl 0, Fl 0, Fl 2), (Fl (1 / 2), Fl 0, Fl 0),
            (Fl 0, Fl 0, Fl 1), (Fl 0, Fl 0, Fl 2), (Fl 0, Fl 0, Fl 0)],
     pos_relaxed = [(Fl 0, Fl 0, Fl 1), (Fl 0, Fl 0, Fl 2), (Fl (1 / 2), Fl 0, Fl 0),
            (Fl 0, Fl 0, Fl 1), (Fl 0, Fl 0, Fl 2), (Fl 0, Fl 0, Fl 0)],
     force = [(Fl 0, Fl 0, Fl 0), (Fl 0, Fl 0, Fl 0), (Fl 0, Fl 0, Fl 0),
            (Fl 0, Fl 0, Fl 0), (Fl 0, Fl 0, Fl 0), (Fl 0, Fl 0, Fl 0)],
     fixed = [Fl 0, Fl 0, Fl 1, Fl 0, Fl 0, Fl 1],
     edge_index = [(0, 1), (1, 0), (3, 4), (4, 3)],
     cell_offsets = [(0, 0, 0), (0, 0, 0), (0, 0, 0), (0, 0, 0), (0, 0, 0), (0, 0, 0)],
     distances = [Fl 1, Fl 1, Fl 1, Fl 1], neighbors = [3, 1],
     sn_nodes_aggregates = [2, 1], sn_edges_aggregates = [0, 0] \<rparr>"

text \<open>A batch whose second graph has no sub-surface atom.\<close>

definition nosub :: batch_t where
  "nosub = \<lparr> ptr = [0, 2, 4], batch = [0, 0, 1, 1], natoms = [2, 2],
     tags = [0, 1, 1, 2], atomic_numbers = [29, 29, 78, 8],
     pos = [(Fl 0, Fl 0, Fl 0), (Fl 0, Fl 0, Fl 1), (Fl 0, Fl 0, Fl 0), (Fl 0, Fl 0, Fl 1)],
     pos_relaxed = [(Fl 0, Fl 0, Fl 0), (Fl 0, Fl 0, Fl 1), (Fl 0, Fl 0, Fl 0), (Fl 0, Fl 0, Fl 1)],
     force = [(Fl 0, Fl 0, Fl 0), (Fl 0, Fl 0, Fl 0), (Fl 0, Fl 0, Fl 0), (Fl 0, Fl 0, Fl 0)],
     fixed = [Fl 1, Fl 0, Fl 0, Fl 0],
     edge_index = [(2, 3), (3, 2)],
     cell_offsets = [(0, 0, 0), (0, 0, 0)],
     distances = [Fl 1, Fl 1], neighbors = [0, 2] \<rparr>"

definition nosub_out :: data_t where
  "nosub_out = \<lparr> ptr = [0, 2, 5], batch = [0, 0, 1, 1, 1], natoms = [2, 3],
     tags = [1, 0, 1, 2, 0], atomic_numbers = [29, 84, 78, 8, 84],
     pos = [(Fl 0, Fl 0, Fl 1), (Fl 0, Fl 0, Fl 0), (Fl 0, Fl 0, Fl 0), (Fl 0, Fl 0, Fl 1),
            (NaN, NaN, NaN)],
     pos_relaxed = [(Fl 0, Fl 0, Fl 1), (Fl 0, Fl 0, Fl 0), (Fl 0, Fl 0, Fl 0), (Fl 0, Fl 0, Fl 1),
            (NaN, NaN, NaN)],
     force = [(Fl 0, Fl 0, Fl 0), (Fl 0, Fl 0, Fl 0), (Fl 0, Fl 0, Fl 0), (Fl 0, Fl 0, Fl 0),
            (NaN, NaN, NaN)],
     fixed = [Fl 0, Fl 1, Fl 0, Fl 0, Fl 1],
     edge_index = [(2, 3), (3, 2)],
     cell_offsets = [(0, 0, 0), (0, 0, 0), (0, 0, 0), (0, 0, 0)],
     distances = [Fl 1, Fl 1], neighbors = [2],
     sn_nodes_aggregates = [1, 0], sn_edges_aggregates = [0, 0] \<rparr>"


section \<open>Notions of the specification\<close>

text \<open>The number of edges of an output whose source lies in the new node range of graph
  \<open>i\<close>.\<close>

definition edges_from :: "data_t \<Rightarrow> nat \<Rightarrow> int" where
  "edges_from d i =
     int (length (filter (\<lambda>(s, t). ptr d ! i \<le> s \<and> s < ptr d ! (i + 1)) (edge_index d)))"

text \<open>
  The input contract of a batch, as the loader delivers it: \<open>ptr\<close> is ascending and ends at
  the number of nodes, every node's batch assignment is a graph whose pointer range holds the
  node, the per-node arrays have one length, \<open>cell_offsets\<close> has one row per edge, and the
  endpoints of the edges are nodes of the batch.
\<close>

definition wf_batch :: "batch_t \<Rightarrow> bool" where
  "wf_batch b \<longleftrightarrow>
     batch b \<noteq> [] \<and> sorted (ptr b) \<and> last (ptr b) = int (length (batch b)) \<and>
     (\<forall>j \<in> set [0..<length (batch b)].
        0 \<le> batch b ! j \<and> nat (batch b ! j) + 1 < length (ptr b) \<and>
        ptr b ! nat (batch b ! j) \<le> int j \<and> int j < ptr b ! (nat (batch b ! j) + 1)) \<and>
     length (tags b) = length (batch b) \<and>
     length (atomic_numbers b) = length (batch b) \<and>
     length (pos b) = length (batch b) \<and>
     length (pos_relaxed b) = length (batch b) \<and>
     length (force b) = length (batch b) \<and>
     length (fixed b) = length (batch b) \<and>
     length (cell_offsets b) = length (edge_index b) \<and>
     (\<forall>(s, t) \<in> set (edge_index b).
        0 \<le> s \<and> s < int (length (batch b)) \<and> 0 \<le> t \<and> t < int (length (batch b)))"

text \<open>The errors Python and PyTorch raise in the blocks above.\<close>

definition py_raise :: "error + 'a \<Rightarrow> bool" where
  "py_raise m = (case m of Inl e \<Rightarrow> e = IndexError \<or> e = ValueError \<or> e = RuntimeError
     | Inr _ \<Rightarrow> True)"

section \<open>The error monad and the tensor operations\<close>

lemma bindE_Inr_iff: "bindE m f = Inr y \<longleftrightarrow> (\<exists>x. m = Inr x \<and> f x = Inr y)"
  by (cases m) (simp_all add: bindE_def)

lemma bindE_Inr [simp]: "bindE (Inr x) f = f x"
  by (simp add: bindE_def)

lemma bindE_Inl [simp]: "bindE (Inl e) f = Inl e"
  by (simp add: bindE_def)

section \<open>The new pointer and the per-atom tensors\<close>

lemma length_new_ptr: "length (new_ptr b n) = Suc n"
  by (simp add: new_ptr_def new_sn_ids_def)
lemma new_ptr_nth:
  assumes "i \<le> n"
  shows "new_ptr b n ! i = int (sum_list (map (\<lambda>k. length (non_sub_nodes b k)) [0..<i])) + int i"
proof (cases i)
  case 0
  then show ?thesis by (simp add: new_ptr_def)
next
  case (Suc j)
  with assms have "j < n" by simp
  then show ?thesis using Suc
    by (simp add: new_ptr_def new_sn_ids_def)
qed

lemma new_ptr_step:
  assumes "i < n"
  shows "new_ptr b n ! (i + 1) = new_ptr b n ! i + int (length (non_sub_nodes b i)) + 1"
  using assms by (simp add: new_ptr_nth)

lemma new_natoms_nth:
  assumes "i + 1 < length p"
  shows "new_natoms p ! i = p ! (i + 1) - p ! i"
  using assms by (simp add: new_natoms_def nth_tl nth_butlast)

lemma length_new_natoms: "length (new_natoms p) = length p - 1"
  by (simp add: new_natoms_def)

lemma single_super_node_Inr:
  assumes "single_super_node b = Inr d"
  obtains n where "batch_size b = Inr n" "0 < n" "n < length (ptr b)"
    "ptr d = new_ptr b n" "natoms d = new_natoms (new_ptr b n)"
    "pos d = per_atom b n (pos b) (sn_pos b)"
    "pos_relaxed d = per_atom b n (pos_relaxed b) (sn_pos_relaxed b)"
    "force d = per_atom b n (force b) (sn_force b)"
    "tags d = per_atom b n (tags b) (\<lambda>i. 0)"
    "atomic_numbers d = per_atom b n (atomic_numbers b) (\<lambda>i. 84)"
    "fixed d = per_atom b n (fixed b) (\<lambda>i. Fl 1)"
    "cell_offsets d = new_cell_offsets b n"
    "sn_nodes_aggregates d = new_sn_nodes_aggregates b n"
    "sn_edges_aggregates d = new_sn_edges_aggregates b n"
  using assms unfolding single_super_node_def
  by (auto simp: bindE_Inr_iff Let_def split: if_splits)

lemma length_concat_upt:
  "length (concat (map f [0..<n])) = sum_list (map (\<lambda>k. length (f k)) [0..<n])"
  by (simp add: length_concat comp_def)

lemma sum_upt_mono:
  assumes "i \<le> n"
  shows "sum_list (map (g :: nat \<Rightarrow> nat) [0..<i]) \<le> sum_list (map g [0..<n])"
  using assms
proof (induction n)
  case 0
  then show ?case by simp
next
  case (Suc n)
  show ?case
  proof (cases "i = Suc n")
    case True
    then show ?thesis by simp
  next
    case False
    with Suc.prems have "i \<le> n" by simp
    from Suc.IH [OF this] show ?thesis by simp
  qed
qed

lemma concat_upt_nth:
  assumes "i < n" and "j < length (f i)"
  shows "concat (map f [0..<n]) ! (sum_list (map (\<lambda>k. length (f k)) [0..<i]) + j) = f i ! j"
  using assms
proof (induction n)
  case 0
  then show ?case by simp
next
  case (Suc n)
  let ?pre = "concat (map f [0..<n])"
  have split: "concat (map f [0..<Suc n]) = ?pre @ f n" by simp
  show ?case
  proof (cases "i = n")
    case True
    then show ?thesis
      unfolding split by (simp add: nth_append length_concat_upt)
  next
    case False
    with Suc.prems have lt: "i < n" by simp
    have "sum_list (map (\<lambda>k. length (f k)) [0..<Suc i]) \<le> sum_list (map (\<lambda>k. length (f k)) [0..<n])"
      using lt by (intro sum_upt_mono) simp
    with Suc.prems(2) have "sum_list (map (\<lambda>k. length (f k)) [0..<i]) + j < length ?pre"
      by (simp add: length_concat_upt)
    then show ?thesis
      unfolding split using Suc.IH [OF lt Suc.prems(2)] by (simp add: nth_append)
  qed
qed

lemma sum_list_Suc_upt:
  "sum_list (map (\<lambda>k. Suc (g k)) [0..<i]) = sum_list (map g [0..<i]) + i"
  by (induction i) simp_all

lemma length_gather [simp]: "length (gather xs idx) = length idx"
  by (simp add: gather_def)

lemma length_per_atom:
  "length (per_atom b n xs sn) = sum_list (map (\<lambda>k. length (non_sub_nodes b k)) [0..<n]) + n"
  by (simp add: per_atom_def length_concat comp_def gather_def sum_list_Suc_upt)

lemma per_atom_super_node:
  assumes "i < n"
  shows "per_atom b n xs sn ! nat (new_ptr b n ! (i + 1) - 1) = sn i"
proof -
  let ?f = "\<lambda>i. gather xs (non_sub_nodes b i) @ [sn i]"
  let ?c = "\<lambda>k. length (non_sub_nodes b k)"
  have len: "length (?f k) = Suc (?c k)" for k by (simp add: gather_def)
  have idx: "nat (new_ptr b n ! (i + 1) - 1) = sum_list (map (\<lambda>k. length (?f k)) [0..<i]) + ?c i"
    using assms by (simp add: new_ptr_nth sum_list_Suc_upt nat_add_distrib)
  have "concat (map ?f [0..<n]) ! (sum_list (map (\<lambda>k. length (?f k)) [0..<i]) + ?c i) = ?f i ! ?c i"
    using assms by (intro concat_upt_nth [where f = ?f]) simp_all
  also have "?f i ! ?c i = sn i" by (simp add: nth_append gather_def)
  finally show ?thesis unfolding per_atom_def idx .
qed


lemma where_idx_filter:
  "where_idx (map P xs) = map int (filter (\<lambda>j. P (xs ! j)) [0..<length xs])"
  unfolding where_idx_def
  by (rule arg_cong [where f = "map int"]) (rule filter_cong, simp_all)

lemma sub_nodes_eq:
  assumes "length (tags b) = length (batch b)"
  shows "sub_nodes b i = map int (filter (\<lambda>j. tags b ! j = 0 \<and> batch b ! j = int i) [0..<length (tags b)])"
proof -
  have "map2 (\<lambda>t g. t = 0 \<and> g = int i) (tags b) (batch b) = map (\<lambda>(t, g). t = 0 \<and> g = int i) (zip (tags b) (batch b))" by simp
  then have "sub_nodes b i = map int (filter (\<lambda>j. (\<lambda>(t, g). t = 0 \<and> g = int i) (zip (tags b) (batch b) ! j)) [0..<length (zip (tags b) (batch b))])"
    unfolding sub_nodes_def by (simp only: where_idx_filter)
  also have "\<dots> = map int (filter (\<lambda>j. tags b ! j = 0 \<and> batch b ! j = int i) [0..<length (tags b)])"
    using assms by (intro arg_cong [where f = "map int"] filter_cong) auto
  finally show ?thesis .
qed

lemma non_sub_nodes_eq:
  assumes "length (tags b) = length (batch b)"
  shows "non_sub_nodes b i = map int (filter (\<lambda>j. tags b ! j \<noteq> 0 \<and> batch b ! j = int i) [0..<length (tags b)])"
proof -
  have "map2 (\<lambda>t g. t \<noteq> 0 \<and> g = int i) (tags b) (batch b) = map (\<lambda>(t, g). t \<noteq> 0 \<and> g = int i) (zip (tags b) (batch b))" by simp
  then have "non_sub_nodes b i = map int (filter (\<lambda>j. (\<lambda>(t, g). t \<noteq> 0 \<and> g = int i) (zip (tags b) (batch b) ! j)) [0..<length (zip (tags b) (batch b))])"
    unfolding non_sub_nodes_def by (simp only: where_idx_filter)
  also have "\<dots> = map int (filter (\<lambda>j. tags b ! j \<noteq> 0 \<and> batch b ! j = int i) [0..<length (tags b)])"
    using assms by (intro arg_cong [where f = "map int"] filter_cong) auto
  finally show ?thesis .
qed

section \<open>The aggregates\<close>

lemma mean0_empty: "mean0 [] = (NaN, NaN, NaN)"
  by (simp add: mean0_def fl_mean_def)

lemma new_sn_nodes_aggregates_nth:
  "i < n \<Longrightarrow> new_sn_nodes_aggregates b n ! i = int (length (sub_nodes b i))"
  by (simp add: new_sn_nodes_aggregates_def)

section \<open>Which errors are raised\<close>

lemma py_raise_Inr [simp]: "py_raise (Inr x)"
  by (simp add: py_raise_def)

lemma py_raise_Inl [simp]:
  "py_raise (Inl e) \<longleftrightarrow> e = IndexError \<or> e = ValueError \<or> e = RuntimeError"
  by (simp add: py_raise_def)

lemma py_raise_bindE:
  assumes "py_raise m" and "\<And>x. m = Inr x \<Longrightarrow> py_raise (f x)"
  shows "py_raise (bindE m f)"
  using assms by (cases m) simp_all

lemma py_raise_tidx: "py_raise (tidx xs k)"
  by (simp add: tidx_def Let_def)

lemma py_raise_tsel: "py_raise (tsel xs ks)"
  by (induction ks) (simp_all add: py_raise_bindE py_raise_tidx)

lemma py_raise_tput: "py_raise (tput xs ks v)"
  by (induction ks arbitrary: xs) (simp_all add: Let_def)

lemma py_raise_msel_chk: "py_raise (msel_chk xs m)"
  by (simp add: msel_chk_def)

lemma py_raise_mask_put_chk: "py_raise (mask_put_chk xs m vs)"
  by (simp add: mask_put_chk_def)

lemma py_raise_assoc_table: "py_raise (assoc_table b n)"
  by (simp add: assoc_table_def Let_def py_raise_bindE py_raise_tput py_raise_mask_put_chk)

lemma py_raise_reindex: "py_raise (reindex a es)"
  by (induction es) (auto intro!: py_raise_bindE py_raise_tidx)

lemma py_raise_new_distances: "py_raise (new_distances ps ei)"
  by (simp add: new_distances_def py_raise_bindE py_raise_tsel)

lemma py_raise_fill_batch: "py_raise (fill_batch p is bt)"
  by (induction "is" arbitrary: bt) (simp_all add: py_raise_bindE py_raise_tput)

lemma py_raise_new_batch: "py_raise (new_batch p)"
  by (simp add: new_batch_def py_raise_fill_batch)

lemma py_raise_batch_size: "py_raise (batch_size b)"
  by (simp add: batch_size_def)

lemma py_raise_single_super_node: "py_raise (single_super_node b)"
  unfolding single_super_node_def Let_def
  by (intro py_raise_bindE py_raise_batch_size)
    (auto intro!: py_raise_bindE py_raise_msel_chk py_raise_assoc_table py_raise_reindex
       py_raise_new_distances py_raise_tsel py_raise_new_batch)

section \<open>The multi-super-node aggregates\<close>








section \<open>When the blocks return\<close>

lemma tput_in_range:
  assumes "\<forall>k \<in> set ks. 0 \<le> k \<and> k < int (length xs)"
  shows "\<exists>ys. tput xs ks v = Inr ys \<and> length ys = length xs \<and>
    (\<forall>j<length xs. ys ! j = (if int j \<in> set ks then v else xs ! j))"
  using assms
proof (induction ks arbitrary: xs)
  case Nil
  then show ?case by simp
next
  case (Cons k ks)
  let ?xs' = "xs[nat k := v]"
  from Cons.prems have k: "0 \<le> k" "k < int (length xs)" by simp_all
  from Cons.prems have "\<forall>k \<in> set ks. 0 \<le> k \<and> k < int (length ?xs')" by simp
  from Cons.IH [OF this] obtain ys where ys: "tput ?xs' ks v = Inr ys" "length ys = length xs"
    "\<forall>j<length xs. ys ! j = (if int j \<in> set ks then v else ?xs' ! j)"
    by auto
  have "tput xs (k # ks) v = Inr ys"
    using k ys(1) by (simp add: Let_def)
  moreover have "ys ! j = (if int j \<in> set (k # ks) then v else xs ! j)" if "j < length xs" for j
    using ys(3) that k by (auto simp: nth_list_update)
  ultimately show ?case using ys(2) by blast
qed

lemma sum_list_indicator:
  "sum_list (map (\<lambda>i. if k = i then 1 else 0) [0..<n]) = (if k < n then 1 else (0::nat))"
  by (induction n) auto

lemma sum_length_filter_classes:
  "sum_list (map (\<lambda>i. length (filter (\<lambda>x. Q x \<and> g x = i) xs)) [0..<n])
     = length (filter (\<lambda>x. Q x \<and> g x < n) xs)"
proof (induction xs)
  case Nil
  then show ?case by simp
next
  case (Cons x xs)
  have "sum_list (map (\<lambda>i. length (filter (\<lambda>x. Q x \<and> g x = i) (x # xs))) [0..<n])
      = sum_list (map (\<lambda>i. (if Q x \<and> g x = i then 1 else 0)
          + length (filter (\<lambda>x. Q x \<and> g x = i) xs)) [0..<n])"
    by (intro arg_cong [where f = sum_list] map_cong) auto
  also have "\<dots> = sum_list (map (\<lambda>i. if Q x \<and> g x = i then 1 else 0) [0..<n])
      + sum_list (map (\<lambda>i. length (filter (\<lambda>x. Q x \<and> g x = i) xs)) [0..<n])"
    by (simp add: sum_list_addf)
  also have "sum_list (map (\<lambda>i. if Q x \<and> g x = i then 1 else 0) [0..<n])
      = (if Q x \<and> g x < n then 1 else (0::nat))"
  proof (cases "Q x")
    case True
    then show ?thesis using sum_list_indicator [of "g x" n] by simp
  next
    case False
    then show ?thesis by simp
  qed
  finally show ?case using Cons.IH by simp
qed

lemma set_mask_put: "set (mask_put xs m vs) \<subseteq> set xs \<union> set vs"
proof (induction xs m vs rule: mask_put.induct)
  case (1 x xs m ms vs)
  then show ?case by (cases vs) (auto split: if_splits)
qed simp_all

lemma length_mask_put [simp]: "length (mask_put xs m vs) = length xs"
proof (induction xs m vs rule: mask_put.induct)
  case (1 x xs m ms vs)
  then show ?case by (cases vs) (auto split: if_splits)
qed simp_all

lemma tidx_in_range:
  assumes "- int (length xs) \<le> k" and "k < int (length xs)"
  shows "\<exists>v. tidx xs k = Inr v \<and> v \<in> set xs"
proof -
  let ?j = "nat (if k < 0 then k + int (length xs) else k)"
  have "?j < length xs" using assms by auto
  then have "xs ! ?j \<in> set xs" by (rule nth_mem)
  then show ?thesis using assms by (simp add: tidx_def Let_def)
qed

lemma tsel_in_range:
  assumes "\<forall>k \<in> set ks. - int (length xs) \<le> k \<and> k < int (length xs)"
  shows "\<exists>vs. tsel xs ks = Inr vs \<and> length vs = length ks"
  using assms
proof (induction ks)
  case Nil
  then show ?case by simp
next
  case (Cons k ks)
  then obtain vs where "tsel xs ks = Inr vs" "length vs = length ks" by auto
  moreover from Cons.prems obtain v where "tidx xs k = Inr v"
    using tidx_in_range [of xs k] by auto
  ultimately show ?case by simp
qed

lemma reindex_in_range:
  assumes "\<forall>(s, t) \<in> set es. 0 \<le> s \<and> s < int (length a) \<and> 0 \<le> t \<and> t < int (length a)"
  shows "\<exists>es'. reindex a es = Inr es' \<and> length es' = length es \<and>
    (\<forall>(s', t') \<in> set es'. s' \<in> set a \<and> t' \<in> set a)"
  using assms
proof (induction es)
  case Nil
  then show ?case by simp
next
  case (Cons e es)
  obtain s t where e: "e = (s, t)" by (cases e)
  from Cons obtain es' where es': "reindex a es = Inr es'" "length es' = length es"
    "\<forall>(s', t') \<in> set es'. s' \<in> set a \<and> t' \<in> set a"
    by auto
  from Cons.prems e obtain s' where s': "tidx a s = Inr s'" "s' \<in> set a"
    using tidx_in_range [of a s] by auto
  from Cons.prems e obtain t' where t': "tidx a t = Inr t'" "t' \<in> set a"
    using tidx_in_range [of a t] by auto
  show ?case using e es' s' t' by simp
qed

lemma fold_max_hd:
  assumes "xs \<noteq> []"
  shows "fold max xs (hd xs) = Max (set xs)"
proof -
  from assms obtain x xs' where xs: "xs = x # xs'" by (cases xs) auto
  have "fold max xs (hd xs) = fold max xs' x" by (simp add: xs)
  also have "\<dots> = Max (set (x # xs'))" by (simp only: Max.set_eq_fold)
  finally show ?thesis by (simp add: xs)
qed

lemma wf_batch_size:
  assumes "wf_batch b" and "batch_size b = Inr n"
  shows "0 < n" and "n < length (ptr b)"
    and "\<And>j. j < length (batch b) \<Longrightarrow> 0 \<le> batch b ! j \<and> nat (batch b ! j) < n"
proof -
  from assms(1) have ne: "batch b \<noteq> []"
    and r: "\<And>j. j < length (batch b) \<Longrightarrow>
      0 \<le> batch b ! j \<and> nat (batch b ! j) + 1 < length (ptr b)"
    by (auto simp: wf_batch_def)
  from assms(2) ne have n: "n = nat (Max (set (batch b)) + 1)"
    by (simp add: batch_size_def fold_max_hd)
  have "Max (set (batch b)) \<in> set (batch b)" using ne by (intro Max_in) simp_all
  then obtain j0 where j0: "j0 < length (batch b)" "batch b ! j0 = Max (set (batch b))"
    by (auto simp: in_set_conv_nth)
  from r [OF j0(1)] j0(2) show "0 < n" and "n < length (ptr b)"
    by (simp_all add: n nat_add_distrib)
  fix j assume j: "j < length (batch b)"
  then have "batch b ! j \<le> Max (set (batch b))" by (intro Max_ge) simp_all
  with r [OF j] show "0 \<le> batch b ! j \<and> nat (batch b ! j) < n" by (simp add: n)
qed

lemma length_non_sub_nodes_sum:
  assumes "wf_batch b" and "batch_size b = Inr n"
  shows "sum_list (map (\<lambda>i. length (non_sub_nodes b i)) [0..<n])
    = length (filter (\<lambda>j. tags b ! j \<noteq> 0) [0..<length (batch b)])"
proof -
  from assms(1) have a: "length (tags b) = length (batch b)" by (simp add: wf_batch_def)
  have cls: "length (non_sub_nodes b i)
      = length (filter (\<lambda>j. tags b ! j \<noteq> 0 \<and> nat (batch b ! j) = i) [0..<length (batch b)])" for i
  proof -
    have "filter (\<lambda>j. tags b ! j \<noteq> 0 \<and> batch b ! j = int i) [0..<length (batch b)]
        = filter (\<lambda>j. tags b ! j \<noteq> 0 \<and> nat (batch b ! j) = i) [0..<length (batch b)]"
      using wf_batch_size(3) [OF assms] by (intro filter_cong) auto
    then show ?thesis by (simp add: non_sub_nodes_eq a)
  qed
  have "filter (\<lambda>j. tags b ! j \<noteq> 0 \<and> nat (batch b ! j) < n) [0..<length (batch b)]
      = filter (\<lambda>j. tags b ! j \<noteq> 0) [0..<length (batch b)]"
    using wf_batch_size(3) [OF assms] by (intro filter_cong) auto
  then show ?thesis
    by (simp only: cls sum_length_filter_classes)
qed

lemma length_sub_nodes_sum:
  assumes "wf_batch b" and "batch_size b = Inr n"
  shows "sum_list (map (\<lambda>i. length (sub_nodes b i)) [0..<n])
    = length (filter (\<lambda>j. tags b ! j = 0) [0..<length (batch b)])"
proof -
  from assms(1) have a: "length (tags b) = length (batch b)" by (simp add: wf_batch_def)
  have cls: "length (sub_nodes b i)
      = length (filter (\<lambda>j. tags b ! j = 0 \<and> nat (batch b ! j) = i) [0..<length (batch b)])" for i
  proof -
    have "filter (\<lambda>j. tags b ! j = 0 \<and> batch b ! j = int i) [0..<length (batch b)]
        = filter (\<lambda>j. tags b ! j = 0 \<and> nat (batch b ! j) = i) [0..<length (batch b)]"
      using wf_batch_size(3) [OF assms] by (intro filter_cong) auto
    then show ?thesis by (simp add: sub_nodes_eq a)
  qed
  have "filter (\<lambda>j. tags b ! j = 0 \<and> nat (batch b ! j) < n) [0..<length (batch b)]
      = filter (\<lambda>j. tags b ! j = 0) [0..<length (batch b)]"
    using wf_batch_size(3) [OF assms] by (intro filter_cong) auto
  then show ?thesis
    by (simp only: cls sum_length_filter_classes)
qed

lemma sub_and_non_sub_count:
  assumes "wf_batch b" and "batch_size b = Inr n"
  shows "sum_list (map (\<lambda>i. length (sub_nodes b i)) [0..<n])
    + sum_list (map (\<lambda>i. length (non_sub_nodes b i)) [0..<n]) = length (batch b)"
  using sum_length_filter_compl [of "\<lambda>j. tags b ! j = 0" "[0..<length (batch b)]"]
  by (simp add: length_sub_nodes_sum [OF assms] length_non_sub_nodes_sum [OF assms])

lemma sorted_ranges_disjoint:
  assumes "sorted (p :: int list)" and "i + 1 < length p" and "k + 1 < length p"
    and "p ! i \<le> s" and "s < p ! (i + 1)" and "p ! k \<le> s" and "s < p ! (k + 1)"
  shows "i = k"
proof (rule ccontr)
  assume "i \<noteq> k"
  then consider "i < k" | "k < i" by linarith
  then show False
  proof cases
    case 1
    then have "p ! (i + 1) \<le> p ! k"
      using assms(1,3) by (intro sorted_nth_mono) simp_all
    with assms(5,6) show False by simp
  next
    case 2
    then have "p ! (k + 1) \<le> p ! i"
      using assms(1,2) by (intro sorted_nth_mono) simp_all
    with assms(4,7) show False by simp
  qed
qed

lemma length_msel_map:
  assumes "length xs = length ys"
  shows "length (msel xs (map P ys)) = length (filter P ys)"
  using assms
  by (induction xs ys rule: list_induct2) (simp_all add: msel_def)

lemma length_not_both_are_sub:
  "length (not_both_are_sub b i)
     = length (filter (\<lambda>(s, t). ptr b ! i \<le> s \<and> s < ptr b ! (i + 1)) (edge_index b))"
  by (simp add: not_both_are_sub_def both_are_sub_def src_is_not_sub_def target_is_not_sub_def
      ei_batch_ids_def length_msel_map)

lemma length_all_not_both_are_sub:
  assumes "wf_batch b" and "batch_size b = Inr n"
  shows "length (concat (map (not_both_are_sub b) [0..<n])) = length (edge_index b)"
proof -
  let ?g = "\<lambda>e. nat (batch b ! nat (fst e))"
  from assms(1) have s: "sorted (ptr b)"
    and e: "\<And>s t. (s, t) \<in> set (edge_index b) \<Longrightarrow> 0 \<le> s \<and> s < int (length (batch b))"
    and r: "\<And>j. j < length (batch b) \<Longrightarrow> nat (batch b ! j) + 1 < length (ptr b) \<and>
        ptr b ! nat (batch b ! j) \<le> int j \<and> int j < ptr b ! (nat (batch b ! j) + 1)"
    by (auto simp: wf_batch_def)
  note n = wf_batch_size [OF assms]
  have cls: "filter (\<lambda>(s, t). ptr b ! i \<le> s \<and> s < ptr b ! (i + 1)) (edge_index b)
      = filter (\<lambda>e. True \<and> ?g e = i) (edge_index b)" if "i < n" for i
  proof (intro filter_cong refl)
    fix x assume x: "x \<in> set (edge_index b)"
    obtain s t where st: "x = (s, t)" by (cases x)
    from e [of s t] x st have s0: "0 \<le> s" "nat s < length (batch b)"
      by (auto simp: nat_less_iff)
    from r [OF s0(2)] s0(1) have own: "nat (batch b ! nat s) + 1 < length (ptr b)"
      "ptr b ! nat (batch b ! nat s) \<le> s" "s < ptr b ! (nat (batch b ! nat s) + 1)"
      by simp_all
    have "(ptr b ! i \<le> s \<and> s < ptr b ! (i + 1)) = (nat (batch b ! nat s) = i)"
    proof
      assume "ptr b ! i \<le> s \<and> s < ptr b ! (i + 1)"
      then show "nat (batch b ! nat s) = i"
        using sorted_ranges_disjoint [OF s own(1) _ own(2,3), of i] that n(2) by simp
    next
      assume "nat (batch b ! nat s) = i"
      with own show "ptr b ! i \<le> s \<and> s < ptr b ! (i + 1)" by auto
    qed
    then show "(case x of (s, t) \<Rightarrow> ptr b ! i \<le> s \<and> s < ptr b ! (i + 1)) = (True \<and> ?g x = i)"
      by (simp add: st)
  qed
  have "length (concat (map (not_both_are_sub b) [0..<n]))
      = sum_list (map (\<lambda>i. length (filter (\<lambda>(s, t). ptr b ! i \<le> s \<and> s < ptr b ! (i + 1))
          (edge_index b))) [0..<n])"
    by (simp add: length_concat comp_def length_not_both_are_sub)
  also have "\<dots> = sum_list (map (\<lambda>i. length (filter (\<lambda>e. True \<and> ?g e = i) (edge_index b))) [0..<n])"
  proof (intro arg_cong [where f = sum_list] map_cong refl)
    fix i assume "i \<in> set [0..<n]"
    then have "i < n" by simp
    from cls [OF this]
    show "length (filter (\<lambda>(s, t). ptr b ! i \<le> s \<and> s < ptr b ! (i + 1)) (edge_index b))
        = length (filter (\<lambda>e. True \<and> ?g e = i) (edge_index b))"
      by (rule arg_cong)
  qed
  also have "\<dots> = length (filter (\<lambda>e. True \<and> ?g e < n) (edge_index b))"
    by (rule sum_length_filter_classes)
  also have "\<dots> = length (edge_index b)"
  proof -
    have "?g x < n" if "x \<in> set (edge_index b)" for x
    proof -
      obtain s t where st: "x = (s, t)" by (cases x)
      from e [of s t] that st have "nat s < length (batch b)" by (auto simp: nat_less_iff)
      from n(3) [OF this] show ?thesis by (simp add: st)
    qed
    then have "filter (\<lambda>e. True \<and> ?g e < n) (edge_index b) = edge_index b"
      by (simp add: filter_id_conv)
    then show ?thesis by simp
  qed
  finally show ?thesis .
qed

lemma set_all_non_sub_nodes:
  assumes "wf_batch b" and "batch_size b = Inr n"
  shows "set (concat (map (non_sub_nodes b) [0..<n]))
    = {int j | j. j < length (batch b) \<and> tags b ! j \<noteq> 0}"
proof -
  from assms(1) have a: "length (tags b) = length (batch b)" by (simp add: wf_batch_def)
  have "x \<in> set (concat (map (non_sub_nodes b) [0..<n]))
      \<longleftrightarrow> (\<exists>j. x = int j \<and> j < length (batch b) \<and> tags b ! j \<noteq> 0)" for x
  proof
    assume "x \<in> set (concat (map (non_sub_nodes b) [0..<n]))"
    then show "\<exists>j. x = int j \<and> j < length (batch b) \<and> tags b ! j \<noteq> 0"
      by (auto simp: non_sub_nodes_eq a)
  next
    assume "\<exists>j. x = int j \<and> j < length (batch b) \<and> tags b ! j \<noteq> 0"
    then obtain j where j: "x = int j" "j < length (batch b)" "tags b ! j \<noteq> 0" by blast
    from wf_batch_size(3) [OF assms j(2)] have "nat (batch b ! j) < n"
      "batch b ! j = int (nat (batch b ! j))" by simp_all
    with j show "x \<in> set (concat (map (non_sub_nodes b) [0..<n]))"
      by (auto simp: non_sub_nodes_eq a intro!: bexI [of _ "nat (batch b ! j)"])
  qed
  then show ?thesis by blast
qed

lemma length_arange: "length (arange a c) = nat (c - a)"
  by (simp add: arange_def)

lemma length_assoc_values:
  "length (assoc_values (new_ptr b n) n)
     = sum_list (map (\<lambda>i. length (non_sub_nodes b i)) [0..<n])"
proof -
  have "length (assoc_values (new_ptr b n) n)
      = sum_list (map (\<lambda>e. nat (new_ptr b n ! (e + 1) - 1 - new_ptr b n ! e)) [0..<n])"
    by (simp add: assoc_values_def length_concat comp_def length_arange)
  also have "\<dots> = sum_list (map (\<lambda>i. length (non_sub_nodes b i)) [0..<n])"
  proof (intro arg_cong [where f = sum_list] map_cong refl)
    fix e assume "e \<in> set [0..<n]"
    then have "e < n" by simp
    from new_ptr_step [OF this, of b]
    show "nat (new_ptr b n ! (e + 1) - 1 - new_ptr b n ! e) = length (non_sub_nodes b e)"
      by simp
  qed
  finally show ?thesis .
qed

lemma set_assoc_values:
  assumes "x \<in> set (assoc_values (new_ptr b n) n)"
  shows "0 \<le> x \<and> x < new_ptr b n ! n - 1"
proof -
  from assms obtain e where e: "e < n" "x \<in> set (arange (new_ptr b n ! e) (new_ptr b n ! (e + 1) - 1))"
    by (auto simp: assoc_values_def)
  then have x: "new_ptr b n ! e \<le> x" "x < new_ptr b n ! (e + 1) - 1"
    by (simp_all add: arange_def)
  have "0 \<le> new_ptr b n ! e" using e(1) by (simp add: new_ptr_nth)
  moreover have "new_ptr b n ! (e + 1) \<le> new_ptr b n ! n"
  proof -
    have "sum_list (map (\<lambda>k. length (non_sub_nodes b k)) [0..<e + 1])
        \<le> sum_list (map (\<lambda>k. length (non_sub_nodes b k)) [0..<n])"
      using e(1) by (intro sum_upt_mono) simp
    then show ?thesis using e(1) by (simp add: new_ptr_nth del: upt_Suc)
  qed
  ultimately show ?thesis using x by simp
qed

lemma new_ptr_last:
  "new_ptr b n ! n = int (sum_list (map (\<lambda>k. length (non_sub_nodes b k)) [0..<n])) + int n"
  by (simp add: new_ptr_nth)

lemma assoc_table_returns:
  assumes "wf_batch b" and "batch_size b = Inr n"
  shows "\<exists>a. assoc_table b n = Inr a \<and> length a = length (batch b) + n \<and>
    (\<forall>x \<in> set a. - 1 \<le> x \<and> x < new_ptr b n ! n - 1)"
proof -
  let ?T = "length (batch b)"
  let ?all = "concat (map (non_sub_nodes b) [0..<n])"
  from assms(1) have lp: "last (ptr b) = int ?T" by (simp add: wf_batch_def)
  have num: "nat (int ?T + int n) = ?T + n" by (simp add: nat_add_distrib)
  note all = set_all_non_sub_nodes [OF assms]
  have "\<forall>k \<in> set ?all. 0 \<le> k \<and> k < int (length (replicate (?T + n) False))"
    unfolding all by auto
  from tput_in_range [OF this, of True] obtain mask
    where mask: "tput (replicate (?T + n) False) ?all True = Inr mask" "length mask = ?T + n"
      "\<forall>j<?T + n. mask ! j = (int j \<in> set ?all)"
    by auto
  have "mask ! j = (j < ?T \<and> tags b ! j \<noteq> 0)" if "j < ?T + n" for j
    using mask(3) that unfolding all by auto
  then have mask_eq: "mask = map (\<lambda>j. j < ?T \<and> tags b ! j \<noteq> 0) [0..<?T + n]"
    using mask(2) by (intro nth_equalityI) simp_all
  have "length (filter id mask) = length (filter (\<lambda>j. j < ?T \<and> tags b ! j \<noteq> 0) [0..<?T + n])"
    unfolding mask_eq by (simp add: filter_map comp_def)
  also have "\<dots> = length (filter (\<lambda>j. tags b ! j \<noteq> 0) [0..<?T])"
  proof -
    have "[0..<?T + n] = [0..<?T] @ [?T..<?T + n]" by (rule upt_add_eq_append) simp
    moreover have "filter (\<lambda>j. j < ?T \<and> tags b ! j \<noteq> 0) [?T..<?T + n] = []"
      by (simp add: filter_empty_conv)
    moreover have "filter (\<lambda>j. j < ?T \<and> tags b ! j \<noteq> 0) [0..<?T]
        = filter (\<lambda>j. tags b ! j \<noteq> 0) [0..<?T]"
      by (intro filter_cong) auto
    ultimately show ?thesis by simp
  qed
  also have "\<dots> = length (assoc_values (new_ptr b n) n)"
    by (simp add: length_assoc_values length_non_sub_nodes_sum [OF assms])
  finally have cnt: "length (filter id mask) = length (assoc_values (new_ptr b n) n)" .
  let ?a = "mask_put (replicate (?T + n) (- 1)) mask (assoc_values (new_ptr b n) n)"
  have run: "assoc_table b n = Inr ?a"
    using mask(1,2) cnt by (simp add: assoc_table_def Let_def lp num mask_put_chk_def)
  have "- 1 \<le> x \<and> x < new_ptr b n ! n - 1" if "x \<in> set ?a" for x
  proof -
    from that set_mask_put [of "replicate (?T + n) (- 1)" mask "assoc_values (new_ptr b n) n"]
    consider "x = - 1" | "x \<in> set (assoc_values (new_ptr b n) n)" by auto
    then show ?thesis
    proof cases
      case 1
      from wf_batch_size(1) [OF assms] show ?thesis by (simp add: 1 new_ptr_last)
    next
      case 2
      from set_assoc_values [OF this] show ?thesis by simp
    qed
  qed
  with run show ?thesis by auto
qed

lemma fill_batch_returns:
  assumes "\<forall>i \<in> set is. 0 \<le> p ! i \<and> p ! (i + 1) \<le> int (length bt)"
  shows "\<exists>bt'. fill_batch p is bt = Inr bt'"
  using assms
proof (induction "is" arbitrary: bt)
  case Nil
  then show ?case by simp
next
  case (Cons i "is")
  have "\<forall>k \<in> set (arange (p ! i) (p ! (i + 1))). 0 \<le> k \<and> k < int (length bt)"
    using Cons.prems by (auto simp: arange_def)
  from tput_in_range [OF this, of "int i"] obtain bt'
    where bt': "tput bt (arange (p ! i) (p ! (i + 1))) (int i) = Inr bt'" "length bt' = length bt"
    by auto
  from Cons.prems bt'(2) have "\<forall>i \<in> set is. 0 \<le> p ! i \<and> p ! (i + 1) \<le> int (length bt')"
    by simp
  from Cons.IH [OF this] bt'(1) show ?case by simp
qed

lemma new_batch_returns: "\<exists>bt. new_batch (new_ptr b n) = Inr bt"
proof -
  have "new_ptr b n \<noteq> []" by (simp add: new_ptr_def)
  then have "last (new_ptr b n) = new_ptr b n ! (length (new_ptr b n) - 1)"
    by (rule last_conv_nth)
  then have last: "last (new_ptr b n) = new_ptr b n ! n"
    by (simp only: length_new_ptr diff_Suc_1)
  have "0 \<le> new_ptr b n ! i \<and> new_ptr b n ! (i + 1) \<le> new_ptr b n ! n" if "i < n" for i
  proof -
    have "sum_list (map (\<lambda>k. length (non_sub_nodes b k)) [0..<i + 1])
        \<le> sum_list (map (\<lambda>k. length (non_sub_nodes b k)) [0..<n])"
      using that by (intro sum_upt_mono) simp
    then show ?thesis using that by (simp add: new_ptr_nth del: upt_Suc)
  qed
  moreover have "0 \<le> new_ptr b n ! n" by (simp add: new_ptr_last)
  ultimately have "\<forall>i \<in> set [0..<n].
      0 \<le> new_ptr b n ! i \<and> new_ptr b n ! (i + 1)
        \<le> int (length (replicate (nat (last (new_ptr b n))) (0::int)))"
    by (simp add: last)
  from fill_batch_returns [OF this] show ?thesis
    by (simp add: new_batch_def length_new_ptr)
qed

lemma set_msel: "set (msel xs m) \<subseteq> set xs"
proof -
  have "set (map snd (filter fst (zip m xs))) \<subseteq> snd ` set (zip m xs)" by auto
  also have "\<dots> \<subseteq> set xs" by (auto dest: set_zip_rightD)
  finally show ?thesis by (simp add: msel_def)
qed

lemma new_distances_returns:
  assumes "\<forall>(s, t) \<in> set ei. - int (length ps) \<le> s \<and> s < int (length ps) \<and>
      - int (length ps) \<le> t \<and> t < int (length ps)"
  shows "\<exists>ds. new_distances ps ei = Inr ds"
proof -
  have "\<forall>k \<in> set (map fst ei). - int (length ps) \<le> k \<and> k < int (length ps)"
    using assms by auto
  from tsel_in_range [OF this] obtain a where a: "tsel ps (map fst ei) = Inr a" by auto
  have "\<forall>k \<in> set (map snd ei). - int (length ps) \<le> k \<and> k < int (length ps)"
    using assms by auto
  from tsel_in_range [OF this] obtain c where c: "tsel ps (map snd ei) = Inr c" by auto
  from a c show ?thesis by (simp add: new_distances_def)
qed

lemma length_filter_nth:
  "length (filter (\<lambda>j. P (xs ! j)) [0..<length xs]) = length (filter P xs)"
proof -
  have "filter P (map ((!) xs) [0..<length xs]) = map ((!) xs) (filter (P \<circ> (!) xs) [0..<length xs])"
    by (rule filter_map)
  then have "length (filter P xs) = length (filter (P \<circ> (!) xs) [0..<length xs])"
    by (simp add: map_nth)
  then show ?thesis by (simp add: comp_def)
qed

lemma sub_nodes_total:
  assumes "wf_batch b" and "batch_size b = Inr n"
  shows "sum_list (map (\<lambda>i. length (sub_nodes b i)) [0..<n])
    = length (filter (\<lambda>t. t = 0) (tags b))"
proof -
  from assms(1) have a: "length (tags b) = length (batch b)" by (simp add: wf_batch_def)
  show ?thesis
    using length_filter_nth [of "\<lambda>t. t = 0" "tags b"]
    by (simp add: length_sub_nodes_sum [OF assms] a)
qed

lemma single_super_node_returns:
  assumes wf: "wf_batch b" and n: "batch_size b = Inr n"
    and sub: "n \<le> length (filter (\<lambda>t. t = 0) (tags b)) + 1"
  shows "\<exists>d. single_super_node b = Inr d"
proof -
  let ?T = "length (batch b)"
  let ?NS = "sum_list (map (\<lambda>i. length (non_sub_nodes b i)) [0..<n])"
  let ?pos = "per_atom b n (pos b) (sn_pos b)"
  note nn = wf_batch_size [OF wf n]
  from wf have T: "0 < ?T"
    and edges: "\<And>s t. (s, t) \<in> set (edge_index b) \<Longrightarrow>
      0 \<le> s \<and> s < int ?T \<and> 0 \<le> t \<and> t < int ?T"
    by (auto simp: wf_batch_def)
  have kept: "msel_chk (edge_index b) (concat (map (not_both_are_sub b) [0..<n]))
      = Inr (msel (edge_index b) (concat (map (not_both_are_sub b) [0..<n])))"
    (is "_ = Inr ?kept")
    by (simp add: msel_chk_def length_all_not_both_are_sub [OF wf n])
  from assoc_table_returns [OF wf n] obtain a where a: "assoc_table b n = Inr a"
    "length a = ?T + n" "\<And>x. x \<in> set a \<Longrightarrow> - 1 \<le> x \<and> x < new_ptr b n ! n - 1"
    by blast
  have "\<forall>(s, t) \<in> set ?kept. 0 \<le> s \<and> s < int (length a) \<and> 0 \<le> t \<and> t < int (length a)"
  proof (clarify)
    fix s t assume "(s, t) \<in> set ?kept"
    then have "(s, t) \<in> set (edge_index b)" by (rule subsetD [OF set_msel])
    from edges [OF this] show "0 \<le> s \<and> s < int (length a) \<and> 0 \<le> t \<and> t < int (length a)"
      by (simp add: a(2))
  qed
  from reindex_in_range [OF this] obtain ei where ei: "reindex a ?kept = Inr ei"
    "\<And>s t. (s, t) \<in> set ei \<Longrightarrow> s \<in> set a \<and> t \<in> set a"
    by blast
  have L: "new_ptr b n ! n = int ?NS + int n" by (rule new_ptr_last)
  have lpos: "length ?pos = ?NS + n" by (rule length_per_atom)
  have "\<forall>(s, t) \<in> set ei. - int (length ?pos) \<le> s \<and> s < int (length ?pos) \<and>
      - int (length ?pos) \<le> t \<and> t < int (length ?pos)"
  proof (clarify)
    fix s t assume "(s, t) \<in> set ei"
    from ei(2) [OF this] a(3) [of s] a(3) [of t] nn(1)
    show "- int (length ?pos) \<le> s \<and> s < int (length ?pos) \<and>
      - int (length ?pos) \<le> t \<and> t < int (length ?pos)"
      by (simp add: lpos L)
  qed
  from new_distances_returns [OF this] obtain ds where ds: "new_distances ?pos ei = Inr ds"
    by blast
  from sub sub_and_non_sub_count [OF wf n] have room: "?NS + n \<le> ?T + 1"
    by (simp add: sub_nodes_total [OF wf n])
  have "\<forall>k \<in> set (map fst ei). - int ?T \<le> k \<and> k < int ?T"
  proof
    fix k assume "k \<in> set (map fst ei)"
    then obtain t where "(k, t) \<in> set ei" by auto
    from T have "1 \<le> int ?T" by (cases "batch b") simp_all
    with ei(2) [OF \<open>(k, t) \<in> set ei\<close>] a(3) [of k] room
    show "- int ?T \<le> k \<and> k < int ?T"
      unfolding L by linarith
  qed
  from tsel_in_range [OF this] obtain sb where sb: "tsel (batch b) (map fst ei) = Inr sb"
    by blast
  from new_batch_returns obtain bt where bt: "new_batch (new_ptr b n) = Inr bt" by blast
  show ?thesis
    unfolding single_super_node_def
    using nn(1,2) by (simp add: n Let_def kept a(1) ei(1) ds sb bt)
qed





section \<open>The concrete batches, evaluated\<close>

lemma scen_batch_size: "batch_size scen = Inr 2"
  by code_simp

lemma scen_run: "single_super_node scen = Inr scen_out"
proof -
  have n: "batch_size scen = Inr 2" by code_simp
  have p: "length (ptr scen) = 3" by (simp add: scen_def)
  have c1: "new_ptr scen 2 = [0, 4, 7]" by code_simp
  have c2: "new_natoms [0, 4, 7] = [4, 3]" by code_simp
  have c3: "per_atom scen 2 (tags scen) (\<lambda>i. 0) = [1, 1, 2, 0, 1, 2, 0]" by code_simp
  have c4: "per_atom scen 2 (atomic_numbers scen) (\<lambda>i. 84) = [29, 29, 1, 84, 78, 8, 84]"
    by code_simp
  have c5: "per_atom scen 2 (pos scen) (sn_pos scen) = [(Fl 1, Fl 1, Fl 1), (Fl 2, Fl 2, Fl 2), (Fl 3, Fl 3, Fl 3), (Fl 1, Fl 2, Fl 3),
            (Fl 6, Fl 6, Fl 6), (Fl 7, Fl 7, Fl 7), (Fl 5, Fl 5, Fl 5)]" by code_simp
  have c6: "per_atom scen 2 (pos_relaxed scen) (sn_pos_relaxed scen) = [(Fl 1, Fl 1, Fl 2), (Fl 2, Fl 2, Fl 3), (Fl 3, Fl 3, Fl 4), (Fl 1, Fl 2, Fl 4),
            (Fl 6, Fl 6, Fl 7), (Fl 7, Fl 7, Fl 8), (Fl 5, Fl 5, Fl 6)]"
    by code_simp
  have c7: "per_atom scen 2 (force scen) (sn_force scen) = [(Fl 0, Fl 0, Fl 0), (Fl 0, Fl 0, Fl 0), (Fl 0, Fl 0, Fl 0), (Fl (1 / 2), Fl (1 / 2), Fl 0),
            (Fl 0, Fl 0, Fl 0), (Fl 0, Fl 0, Fl 0), (Fl 0, Fl 0, Fl 3)]" by code_simp
  have c8: "per_atom scen 2 (fixed scen) (\<lambda>i. Fl 1) = [Fl 0, Fl 0, Fl 0, Fl 1, Fl 0, Fl 0, Fl 1]" by code_simp
  have c9: "new_cell_offsets scen 2 = [(0, 0, 0), (0, 0, 0), (1, 0, 0), (0, 0, 0)]" by code_simp
  have c10: "new_sn_nodes_aggregates scen 2 = [2, 1]" by code_simp
  have c11: "new_sn_edges_aggregates scen 2 = [0, 0]" by code_simp
  have e1: "msel_chk (edge_index scen) (concat (map (not_both_are_sub scen) [0..<2]))
      = Inr [(0, 2), (5, 6)]" by code_simp
  have e2: "assoc_table scen 2 = Inr [- 1, - 1, 0, 1, 2, - 1, 4, 5, - 1, - 1]" by code_simp
  have e3: "reindex [- 1, - 1, 0, 1, 2, - 1, 4, 5, - 1, - 1] [(0, 2), (5, 6)]
      = Inr [(- 1, 0), (- 1, 4)]" by code_simp
  have e4: "new_distances [(Fl 1, Fl 1, Fl 1), (Fl 2, Fl 2, Fl 2), (Fl 3, Fl 3, Fl 3), (Fl 1, Fl 2, Fl 3),
            (Fl 6, Fl 6, Fl 6), (Fl 7, Fl 7, Fl 7), (Fl 5, Fl 5, Fl 5)] [(- 1, 0), (- 1, 4)] = Inr [Fl (sqrt 48), Fl (sqrt 3)]"
    by (simp add: new_distances_def tidx_def dist3_def)
  have e5: "tsel (batch scen) [- 1, - 1] = Inr [1, 1]" by code_simp
  have e6: "unique_counts [1, 1] = [2]" by code_simp
  have e7: "new_batch [0, 4, 7] = Inr [0, 0, 0, 0, 1, 1, 1]" by code_simp
  show ?thesis
    unfolding single_super_node_def
    by (simp add: Let_def n p c1 c2 c3 c4 c5 c6 c7 c8 c9 c10 c11 e1 e2 e3 e4 e5 e6 e7 scen_out_def
          del: reindex.simps tsel.simps tput.simps fill_batch.simps)
qed

lemma stale_run: "single_super_node stale = Inr stale_out"
proof -
  have n: "batch_size stale = Inr 2" by code_simp
  have p: "length (ptr stale) = 3" by (simp add: stale_def)
  have c1: "new_ptr stale 2 = [0, 3, 6]" by code_simp
  have c2: "new_natoms [0, 3, 6] = [3, 3]" by code_simp
  have c3: "per_atom stale 2 (tags stale) (\<lambda>i. 0) = [1, 1, 0, 1, 1, 0]" by code_simp
  have c4: "per_atom stale 2 (atomic_numbers stale) (\<lambda>i. 84) = [29, 1, 84, 78, 8, 84]"
    by code_simp
  have c5: "per_atom stale 2 (pos stale) (sn_pos stale)
      = [(Fl 0, Fl 0, Fl 1), (Fl 0, Fl 0, Fl 2), (Fl (1 / 2), Fl 0, Fl 0),
         (Fl 0, Fl 0, Fl 1), (Fl 0, Fl 0, Fl 2), (Fl 0, Fl 0, Fl 0)]" by code_simp
  have c6: "per_atom stale 2 (pos_relaxed stale) (sn_pos_relaxed stale)
      = [(Fl 0, Fl 0, Fl 1), (Fl 0, Fl 0, Fl 2), (Fl (1 / 2), Fl 0, Fl 0),
         (Fl 0, Fl 0, Fl 1), (Fl 0, Fl 0, Fl 2), (Fl 0, Fl 0, Fl 0)]" by code_simp
  have c7: "per_atom stale 2 (force stale) (sn_force stale)
      = [(Fl 0, Fl 0, Fl 0), (Fl 0, Fl 0, Fl 0), (Fl 0, Fl 0, Fl 0),
         (Fl 0, Fl 0, Fl 0), (Fl 0, Fl 0, Fl 0), (Fl 0, Fl 0, Fl 0)]" by code_simp
  have c8: "per_atom stale 2 (fixed stale) (\<lambda>i. Fl 1) = [Fl 0, Fl 0, Fl 1, Fl 0, Fl 0, Fl 1]"
    by code_simp
  have c9: "new_cell_offsets stale 2
      = [(0, 0, 0), (0, 0, 0), (0, 0, 0), (0, 0, 0), (0, 0, 0), (0, 0, 0)]" by code_simp
  have c10: "new_sn_nodes_aggregates stale 2 = [2, 1]" by code_simp
  have c11: "new_sn_edges_aggregates stale 2 = [0, 0]" by code_simp
  have e1: "msel_chk (edge_index stale) (concat (map (not_both_are_sub stale) [0..<2]))
      = Inr [(2, 3), (3, 2), (5, 6), (6, 5)]" by code_simp
  have e2: "assoc_table stale 2 = Inr [- 1, - 1, 0, 1, - 1, 3, 4, - 1, - 1]" by code_simp
  have e3: "reindex [- 1, - 1, 0, 1, - 1, 3, 4, - 1, - 1] [(2, 3), (3, 2), (5, 6), (6, 5)]
      = Inr [(0, 1), (1, 0), (3, 4), (4, 3)]" by code_simp
  have e4: "new_distances [(Fl 0, Fl 0, Fl 1), (Fl 0, Fl 0, Fl 2), (Fl (1 / 2), Fl 0, Fl 0),
         (Fl 0, Fl 0, Fl 1), (Fl 0, Fl 0, Fl 2), (Fl 0, Fl 0, Fl 0)]
       [(0, 1), (1, 0), (3, 4), (4, 3)] = Inr [Fl 1, Fl 1, Fl 1, Fl 1]"
    by (simp add: new_distances_def tidx_def dist3_def)
  have e5: "tsel (batch stale) [0, 1, 3, 4] = Inr [0, 0, 0, 1]" by code_simp
  have e6: "unique_counts [0, 0, 0, 1] = [3, 1]" by code_simp
  have e7: "new_batch [0, 3, 6] = Inr [0, 0, 0, 1, 1, 1]" by code_simp
  show ?thesis
    unfolding single_super_node_def
    by (simp add: Let_def n p c1 c2 c3 c4 c5 c6 c7 c8 c9 c10 c11 e1 e2 e3 e4 e5 e6 e7
          stale_out_def del: reindex.simps tsel.simps tput.simps fill_batch.simps)
qed

lemma nosub_batch_size: "batch_size nosub = Inr 2"
  by code_simp

lemma nosub_run: "single_super_node nosub = Inr nosub_out"
proof -
  have n: "batch_size nosub = Inr 2" by code_simp
  have p: "length (ptr nosub) = 3" by (simp add: nosub_def)
  have c1: "new_ptr nosub 2 = [0, 2, 5]" by code_simp
  have c2: "new_natoms [0, 2, 5] = [2, 3]" by code_simp
  have c3: "per_atom nosub 2 (tags nosub) (\<lambda>i. 0) = [1, 0, 1, 2, 0]" by code_simp
  have c4: "per_atom nosub 2 (atomic_numbers nosub) (\<lambda>i. 84) = [29, 84, 78, 8, 84]"
    by code_simp
  have c5: "per_atom nosub 2 (pos nosub) (sn_pos nosub)
      = [(Fl 0, Fl 0, Fl 1), (Fl 0, Fl 0, Fl 0), (Fl 0, Fl 0, Fl 0), (Fl 0, Fl 0, Fl 1),
         (NaN, NaN, NaN)]" by code_simp
  have c6: "per_atom nosub 2 (pos_relaxed nosub) (sn_pos_relaxed nosub)
      = [(Fl 0, Fl 0, Fl 1), (Fl 0, Fl 0, Fl 0), (Fl 0, Fl 0, Fl 0), (Fl 0, Fl 0, Fl 1),
         (NaN, NaN, NaN)]" by code_simp
  have c7: "per_atom nosub 2 (force nosub) (sn_force nosub)
      = [(Fl 0, Fl 0, Fl 0), (Fl 0, Fl 0, Fl 0), (Fl 0, Fl 0, Fl 0), (Fl 0, Fl 0, Fl 0),
         (NaN, NaN, NaN)]" by code_simp
  have c8: "per_atom nosub 2 (fixed nosub) (\<lambda>i. Fl 1) = [Fl 0, Fl 1, Fl 0, Fl 0, Fl 1]"
    by code_simp
  have c9: "new_cell_offsets nosub 2 = [(0, 0, 0), (0, 0, 0), (0, 0, 0), (0, 0, 0)]"
    by code_simp
  have c10: "new_sn_nodes_aggregates nosub 2 = [1, 0]" by code_simp
  have c11: "new_sn_edges_aggregates nosub 2 = [0, 0]" by code_simp
  have e1: "msel_chk (edge_index nosub) (concat (map (not_both_are_sub nosub) [0..<2]))
      = Inr [(2, 3), (3, 2)]" by code_simp
  have e2: "assoc_table nosub 2 = Inr [- 1, 0, 2, 3, - 1, - 1]" by code_simp
  have e3: "reindex [- 1, 0, 2, 3, - 1, - 1] [(2, 3), (3, 2)] = Inr [(2, 3), (3, 2)]"
    by code_simp
  have e4: "new_distances [(Fl 0, Fl 0, Fl 1), (Fl 0, Fl 0, Fl 0), (Fl 0, Fl 0, Fl 0),
         (Fl 0, Fl 0, Fl 1), (NaN, NaN, NaN)] [(2, 3), (3, 2)] = Inr [Fl 1, Fl 1]"
    by (simp add: new_distances_def tidx_def dist3_def)
  have e5: "tsel (batch nosub) [2, 3] = Inr [1, 1]" by code_simp
  have e6: "unique_counts [1, 1] = [2]" by code_simp
  have e7: "new_batch [0, 2, 5] = Inr [0, 0, 1, 1, 1]" by code_simp
  show ?thesis
    unfolding single_super_node_def
    by (simp add: Let_def n p c1 c2 c3 c4 c5 c6 c7 c8 c9 c10 c11 e1 e2 e3 e4 e5 e6 e7
          nosub_out_def del: reindex.simps tsel.simps tput.simps fill_batch.simps)
qed


lemma scen_wf: "wf_batch scen"
  by code_simp

lemma nosub_wf: "wf_batch nosub"
  by code_simp

section \<open>The new pointer array\<close>

lemma new_pointer_of_run:
  assumes "single_super_node b = Inr d" and "batch_size b = Inr n"
  shows "length (ptr d) = n + 1 \<and> length (natoms d) = n \<and> ptr d ! 0 = 0 \<and>
    (\<forall>i<n. ptr d ! (i + 1) = ptr d ! i + int (length (non_sub_nodes b i)) + 1 \<and>
            natoms d ! i = ptr d ! (i + 1) - ptr d ! i)"
proof -
  from assms obtain p: "ptr d = new_ptr b n" and a: "natoms d = new_natoms (new_ptr b n)"
    by (auto elim: single_super_node_Inr)
  have "ptr d ! 0 = 0" by (simp add: p new_ptr_def)
  moreover have "natoms d ! i = ptr d ! (i + 1) - ptr d ! i" if "i < n" for i
    using that by (simp add: p a new_natoms_nth length_new_ptr)
  moreover have "ptr d ! (i + 1) = ptr d ! i + int (length (non_sub_nodes b i)) + 1"
    if "i < n" for i
    using that unfolding p by (rule new_ptr_step)
  ultimately show ?thesis
    by (simp add: p a length_new_ptr length_new_natoms)
qed

lemma length_non_sub_nodes_card:
  assumes "length (tags b) = length (batch b)"
  shows "length (non_sub_nodes b i)
    = card {j. j < length (tags b) \<and> tags b ! j \<noteq> 0 \<and> batch b ! j = int i}"
proof -
  let ?js = "filter (\<lambda>j. tags b ! j \<noteq> 0 \<and> batch b ! j = int i) [0..<length (tags b)]"
  have "length (non_sub_nodes b i) = length ?js"
    by (simp add: non_sub_nodes_eq [OF assms])
  also have "\<dots> = card (set ?js)"
    by (rule distinct_card [symmetric]) simp
  also have "set ?js = {j. j < length (tags b) \<and> tags b ! j \<noteq> 0 \<and> batch b ! j = int i}"
    by auto
  finally show ?thesis .
qed

text \<open>
  Claim C7. Whenever the single-super-node reduction returns, its new pointer array has one
  entry more than there are graphs, starts at \<open>0\<close>, and grows for graph \<open>i\<close> by the number of
  that graph's non-sub-surface atoms plus one, the super-node; \<open>natoms\<close> has one entry per graph,
  the difference of the graph's two pointers. The non-sub-surface atoms of graph \<open>i\<close> are the
  nodes with a tag other than \<open>0\<close> and batch assignment \<open>i\<close>. The reduction does return on
  every batch that meets the input contract and has at most one sub-surface atom less than
  it has graphs.
\<close>

theorem new_pointer_node_counts:
  "(single_super_node b = Inr d \<and> batch_size b = Inr n \<longrightarrow>
      length (ptr d) = n + 1 \<and> length (natoms d) = n \<and> ptr d ! 0 = 0 \<and>
      (\<forall>i<n. ptr d ! (i + 1) = ptr d ! i + int (length (non_sub_nodes b i)) + 1 \<and>
              natoms d ! i = ptr d ! (i + 1) - ptr d ! i)) \<and>
   (length (tags b) = length (batch b) \<longrightarrow>
      length (non_sub_nodes b k)
        = card {j. j < length (tags b) \<and> tags b ! j \<noteq> 0 \<and> batch b ! j = int k}) \<and>
   (wf_batch b \<and> batch_size b = Inr n \<and> n \<le> length (filter (\<lambda>t. t = 0) (tags b)) + 1 \<longrightarrow>
      (\<exists>d'. single_super_node b = Inr d'))"
proof -
  have run: "single_super_node b = Inr d \<and> batch_size b = Inr n \<longrightarrow>
      length (ptr d) = n + 1 \<and> length (natoms d) = n \<and> ptr d ! 0 = 0 \<and>
      (\<forall>i<n. ptr d ! (i + 1) = ptr d ! i + int (length (non_sub_nodes b i)) + 1 \<and>
              natoms d ! i = ptr d ! (i + 1) - ptr d ! i)"
  proof
    assume "single_super_node b = Inr d \<and> batch_size b = Inr n"
    then have "single_super_node b = Inr d" and "batch_size b = Inr n" by simp_all
    then show "length (ptr d) = n + 1 \<and> length (natoms d) = n \<and> ptr d ! 0 = 0 \<and>
      (\<forall>i<n. ptr d ! (i + 1) = ptr d ! i + int (length (non_sub_nodes b i)) + 1 \<and>
              natoms d ! i = ptr d ! (i + 1) - ptr d ! i)"
      by (rule new_pointer_of_run)
  qed
  have count: "length (tags b) = length (batch b) \<longrightarrow>
      length (non_sub_nodes b k)
        = card {j. j < length (tags b) \<and> tags b ! j \<noteq> 0 \<and> batch b ! j = int k}"
  proof
    assume "length (tags b) = length (batch b)"
    then show "length (non_sub_nodes b k)
        = card {j. j < length (tags b) \<and> tags b ! j \<noteq> 0 \<and> batch b ! j = int k}"
      by (rule length_non_sub_nodes_card)
  qed
  have returns: "wf_batch b \<and> batch_size b = Inr n \<and>
      n \<le> length (filter (\<lambda>t. t = 0) (tags b)) + 1 \<longrightarrow> (\<exists>d'. single_super_node b = Inr d')"
  proof
    assume "wf_batch b \<and> batch_size b = Inr n \<and> n \<le> length (filter (\<lambda>t. t = 0) (tags b)) + 1"
    then have "wf_batch b" and "batch_size b = Inr n"
      and "n \<le> length (filter (\<lambda>t. t = 0) (tags b)) + 1" by simp_all
    then show "\<exists>d'. single_super_node b = Inr d'" by (rule single_super_node_returns)
  qed
  show ?thesis by (rule conjI [OF run conjI [OF count returns]])
qed

theorem new_pointer_node_counts_witness:
  "single_super_node scen = Inr scen_out \<and> batch_size scen = Inr 2 \<and>
   length (ptr scen_out) = 2 + 1 \<and> length (natoms scen_out) = 2 \<and> ptr scen_out ! 0 = 0 \<and>
   ptr scen_out ! (0 + 1) = ptr scen_out ! 0 + int (length (non_sub_nodes scen 0)) + 1 \<and>
   natoms scen_out ! 0 = ptr scen_out ! (0 + 1) - ptr scen_out ! 0 \<and>
   ptr scen_out ! (1 + 1) = ptr scen_out ! 1 + int (length (non_sub_nodes scen 1)) + 1 \<and>
   natoms scen_out ! 1 = ptr scen_out ! (1 + 1) - ptr scen_out ! 1 \<and>
   length (tags scen) = length (batch scen) \<and>
   length (non_sub_nodes scen 0)
     = card {j. j < length (tags scen) \<and> tags scen ! j \<noteq> 0 \<and> batch scen ! j = int 0} \<and>
   wf_batch scen \<and> 2 \<le> length (filter (\<lambda>t. t = 0) (tags scen)) + 1 \<and>
   (\<exists>d'. single_super_node scen = Inr d')"
proof -
  note t = new_pointer_node_counts [of scen scen_out 2 0]
  have a: "length (tags scen) = length (batch scen)" by (simp add: scen_def)
  have s: "2 \<le> length (filter (\<lambda>t. t = 0) (tags scen)) + 1" by (simp add: scen_def)
  have "(0::nat) < 2" and "(1::nat) < 2" by simp_all
  with t scen_run scen_batch_size scen_wf a s show ?thesis by blast
qed

section \<open>Super-node payloads\<close>

text \<open>
  Claim C5, as the code has it. The reduction has no policy for a graph without sub-surface
  atoms: it never raises \<open>EmptyAggregateError\<close>, and whenever it returns, such a graph has
  got its super-node all the same, with \<open>NaN\<close> in every coordinate of position, relaxed
  position and force (the mean of no rows) and an aggregate count of \<open>0\<close>. It does return on
  every batch that meets the input contract and has at most one sub-surface atom less than
  it has graphs.
\<close>

theorem no_empty_aggregate_policy:
  "single_super_node b \<noteq> Inl EmptyAggregateError \<and>
   (single_super_node b = Inr d \<and> batch_size b = Inr n \<and> i < n \<and> sub_nodes b i = [] \<longrightarrow>
      natoms d ! i = int (length (non_sub_nodes b i)) + 1 \<and>
      pos d ! nat (ptr d ! (i + 1) - 1) = (NaN, NaN, NaN) \<and>
      pos_relaxed d ! nat (ptr d ! (i + 1) - 1) = (NaN, NaN, NaN) \<and>
      force d ! nat (ptr d ! (i + 1) - 1) = (NaN, NaN, NaN) \<and>
      atomic_numbers d ! nat (ptr d ! (i + 1) - 1) = 84 \<and>
      tags d ! nat (ptr d ! (i + 1) - 1) = 0 \<and>
      sn_nodes_aggregates d ! i = 0) \<and>
   (wf_batch b \<and> batch_size b = Inr n \<and> n \<le> length (filter (\<lambda>t. t = 0) (tags b)) + 1 \<longrightarrow>
      (\<exists>d'. single_super_node b = Inr d'))"
proof (intro conjI impI)
  show "single_super_node b \<noteq> Inl EmptyAggregateError"
    using py_raise_single_super_node [of b] by auto
next
  assume h: "single_super_node b = Inr d \<and> batch_size b = Inr n \<and> i < n \<and> sub_nodes b i = []"
  then have "i < n" and e: "sub_nodes b i = []" by simp_all
  from h have p: "ptr d = new_ptr b n" and a: "natoms d = new_natoms (new_ptr b n)"
    and f: "pos d = per_atom b n (pos b) (sn_pos b)"
      "pos_relaxed d = per_atom b n (pos_relaxed b) (sn_pos_relaxed b)"
      "force d = per_atom b n (force b) (sn_force b)"
      "atomic_numbers d = per_atom b n (atomic_numbers b) (\<lambda>i. 84)"
      "tags d = per_atom b n (tags b) (\<lambda>i. 0)"
    and c: "sn_nodes_aggregates d = new_sn_nodes_aggregates b n"
    by (auto elim: single_super_node_Inr)
  show "natoms d ! i = int (length (non_sub_nodes b i)) + 1"
    using \<open>i < n\<close> by (simp add: a new_natoms_nth length_new_ptr new_ptr_nth)
  have "pos d ! nat (ptr d ! (i + 1) - 1) = sn_pos b i"
    unfolding p f using \<open>i < n\<close> by (rule per_atom_super_node)
  then show "pos d ! nat (ptr d ! (i + 1) - 1) = (NaN, NaN, NaN)"
    by (simp add: sn_pos_def e gather_def mean0_empty)
  have "pos_relaxed d ! nat (ptr d ! (i + 1) - 1) = sn_pos_relaxed b i"
    unfolding p f using \<open>i < n\<close> by (rule per_atom_super_node)
  then show "pos_relaxed d ! nat (ptr d ! (i + 1) - 1) = (NaN, NaN, NaN)"
    by (simp add: sn_pos_relaxed_def e gather_def mean0_empty)
  have "force d ! nat (ptr d ! (i + 1) - 1) = sn_force b i"
    unfolding p f using \<open>i < n\<close> by (rule per_atom_super_node)
  then show "force d ! nat (ptr d ! (i + 1) - 1) = (NaN, NaN, NaN)"
    by (simp add: sn_force_def e gather_def mean0_empty)
  show "atomic_numbers d ! nat (ptr d ! (i + 1) - 1) = 84"
    unfolding p f using \<open>i < n\<close> by (rule per_atom_super_node)
  show "tags d ! nat (ptr d ! (i + 1) - 1) = 0"
    unfolding p f using \<open>i < n\<close> by (rule per_atom_super_node)
  have "sn_nodes_aggregates d ! i = int (length (sub_nodes b i))"
    unfolding c using \<open>i < n\<close> by (rule new_sn_nodes_aggregates_nth)
  then show "sn_nodes_aggregates d ! i = 0" by (simp add: e)
next
  assume "wf_batch b \<and> batch_size b = Inr n \<and> n \<le> length (filter (\<lambda>t. t = 0) (tags b)) + 1"
  then have "wf_batch b" and "batch_size b = Inr n"
    and "n \<le> length (filter (\<lambda>t. t = 0) (tags b)) + 1" by simp_all
  then show "\<exists>d'. single_super_node b = Inr d'" by (rule single_super_node_returns)
qed

theorem no_empty_aggregate_policy_witness:
  "single_super_node nosub = Inr nosub_out \<and> batch_size nosub = Inr 2 \<and> (1::nat) < 2 \<and>
   sub_nodes nosub 1 = [] \<and>
   single_super_node nosub \<noteq> Inl EmptyAggregateError \<and>
   natoms nosub_out ! 1 = int (length (non_sub_nodes nosub 1)) + 1 \<and>
   pos nosub_out ! nat (ptr nosub_out ! (1 + 1) - 1) = (NaN, NaN, NaN) \<and>
   pos_relaxed nosub_out ! nat (ptr nosub_out ! (1 + 1) - 1) = (NaN, NaN, NaN) \<and>
   force nosub_out ! nat (ptr nosub_out ! (1 + 1) - 1) = (NaN, NaN, NaN) \<and>
   atomic_numbers nosub_out ! nat (ptr nosub_out ! (1 + 1) - 1) = 84 \<and>
   tags nosub_out ! nat (ptr nosub_out ! (1 + 1) - 1) = 0 \<and>
   sn_nodes_aggregates nosub_out ! 1 = 0 \<and>
   wf_batch nosub \<and> 2 \<le> length (filter (\<lambda>t. t = 0) (tags nosub)) + 1 \<and>
   (\<exists>d'. single_super_node nosub = Inr d')"
proof -
  have e: "sub_nodes nosub 1 = []" by code_simp
  have l: "(1::nat) < 2" by simp
  have c: "2 \<le> length (filter (\<lambda>t. t = 0) (tags nosub)) + 1" by (simp add: nosub_def)
  from no_empty_aggregate_policy [of nosub nosub_out 2 1] nosub_run nosub_batch_size e l
    nosub_wf c
  show ?thesis by blast
qed

text \<open>Claim C5 as stated fails on the batch \<open>nosub\<close>: the reduction returns, and the second
  graph, which has no sub-surface atom, has three nodes, the last one a super-node with
  \<open>NaN\<close> coordinates.\<close>

theorem empty_graph_nan_super_node:
  "single_super_node nosub = Inr nosub_out \<and> sub_nodes nosub 1 = [] \<and>
   ptr nosub_out = [0, 2, 5] \<and> natoms nosub_out = [2, 3] \<and>
   length (non_sub_nodes nosub 1) = 2 \<and>
   pos nosub_out ! 4 = (NaN, NaN, NaN) \<and> pos_relaxed nosub_out ! 4 = (NaN, NaN, NaN) \<and>
   force nosub_out ! 4 = (NaN, NaN, NaN) \<and> sn_nodes_aggregates nosub_out = [1, 0]"
proof -
  have "sub_nodes nosub 1 = []" by code_simp
  moreover have "length (non_sub_nodes nosub 1) = 2" by code_simp
  ultimately show ?thesis by (simp add: nosub_run) (simp add: nosub_out_def)
qed

section \<open>The output edges\<close>

text \<open>
  Claim C1 at the scenario batch: both edges survive the filter, each with a sub-surface
  source; the reduction returns and the output edge index holds the sentinel \<open>-1\<close> as their
  source, outside \<open>[0, 7)\<close>.
\<close>

theorem sentinel_endpoint_emitted:
  "single_super_node scen = Inr scen_out \<and> edge_index scen = [(0, 2), (5, 6)] \<and>
   tags scen ! 0 = 0 \<and> tags scen ! 2 = 1 \<and> tags scen ! 5 = 0 \<and> tags scen ! 6 = 1 \<and>
   edge_index scen_out = [(- 1, 0), (- 1, 4)] \<and> length (pos scen_out) = 7 \<and>
   last (ptr scen_out) = 7"
  by (simp add: scen_run) (simp add: scen_def scen_out_def)

text \<open>
  Claim C2 at the scenario batch: the graphs get 4 and 3 nodes and the super-nodes are the
  nodes 3 and 6, but the sub-surface endpoints of the two edges come out as \<open>-1\<close>, not as
  3 and 6.
\<close>

theorem scenario_edges_not_rewired:
  "single_super_node scen = Inr scen_out \<and> natoms scen_out = [4, 3] \<and>
   new_sn_ids scen 2 = [3, 6] \<and> edge_index scen_out = [(- 1, 0), (- 1, 4)]"
proof -
  have "new_sn_ids scen 2 = [3, 6]" by code_simp
  then show ?thesis by (simp add: scen_run) (simp add: scen_out_def)
qed

text \<open>
  Claim C3 at the scenario batch: the output has two edges and four rows of cell offsets, a
  zero row appended after each graph's rows with no edge to go with it.
\<close>

theorem cell_offsets_longer_than_edge_index:
  "single_super_node scen = Inr scen_out \<and>
   edge_index scen_out = [(- 1, 0), (- 1, 4)] \<and>
   cell_offsets scen_out = [(0, 0, 0), (0, 0, 0), (1, 0, 0), (0, 0, 0)] \<and>
   length (edge_index scen_out) = 2 \<and> length (cell_offsets scen_out) = 4"
  by (simp add: scen_run) (simp add: scen_out_def)

text \<open>
  Claim C4 at the batch \<open>stale\<close>: each graph has two output edges with their source in its
  new node range, and \<open>neighbors\<close> is \<open>[3, 1]\<close>, counted on the batch assignment of the
  input. At the scenario batch \<open>neighbors\<close> has one entry for two graphs.
\<close>

theorem neighbors_counted_on_old_batch:
  "single_super_node stale = Inr stale_out \<and> ptr stale_out = [0, 3, 6] \<and>
   edge_index stale_out = [(0, 1), (1, 0), (3, 4), (4, 3)] \<and>
   edges_from stale_out 0 = 2 \<and> edges_from stale_out 1 = 2 \<and>
   neighbors stale_out = [3, 1] \<and>
   single_super_node scen = Inr scen_out \<and> length (natoms scen_out) = 2 \<and>
   neighbors scen_out = [2]"
  by (simp add: stale_run scen_run) (simp add: stale_out_def scen_out_def edges_from_def)

section \<open>The multi-super-node positions\<close>




end
